theory Spec2Isabelle
  imports Main
begin

section \<open>Storage (pkg/storage/storage.go)\<close>

text \<open>
  A Go \<open>error\<close> is modelled by its message; \<open>nil\<close> is \<open>None\<close>. A Go function
  returning \<open>(v, err)\<close> returns a pair \<open>(v, e)\<close> with \<open>e :: error option\<close>.
\<close>

type_synonym error = string

text \<open>
  \<open>type Relationship struct { Username string; Href string; Timestamp int64 }\<close>.
  The timestamp is only stored and compared, never computed with, so the 64-bit value is
  an \<open>int\<close>.
\<close>

record Relationship =
  Username :: string
  Href :: string
  Timestamp :: int

text \<open>
  A row of \<open>session_actions\<close>. The \<open>AUTOINCREMENT\<close> id is the position of the row
  in the table: rows are only ever appended.
\<close>

record session_action =
  action_type :: string
  username :: string
  action_at :: int

text \<open>
  The five tables of \<open>ensureSchema\<close>. A table is the list of its rows in row order
  (the order of a table scan). \<open>unfollowed\<close> and \<open>not_following\<close> hold pairs
  (username, time of the mark).
\<close>

record db =
  following :: "Relationship list"
  followers :: "Relationship list"
  unfollowed :: "(string \<times> int) list"
  session_actions :: "session_action list"
  not_following :: "(string \<times> int) list"

definition empty_db :: db where
  "empty_db = \<lparr>following = [], followers = [], unfollowed = [], session_actions = [],
     not_following = []\<rparr>"

text \<open>
  The \<open>PRIMARY KEY\<close> constraints of the schema: \<open>username\<close> is unique in
  \<open>following\<close>, \<open>followers\<close>, \<open>unfollowed\<close> and \<open>not_following\<close>.
\<close>

definition schema_ok :: "db \<Rightarrow> bool" where
  "schema_ok d =
     (distinct (map Username (following d)) \<and> distinct (map Username (followers d)) \<and>
      distinct (map fst (unfollowed d)) \<and> distinct (map fst (not_following d)))"

text \<open>
  \<open>INSERT OR REPLACE\<close> on a table with primary key \<open>key\<close>: the row with the same key,
  if any, is deleted and the new row is inserted (as the last row).
\<close>

definition insert_or_replace :: "('r \<Rightarrow> string) \<Rightarrow> 'r \<Rightarrow> 'r list \<Rightarrow> 'r list" where
  "insert_or_replace key r tbl = filter (\<lambda>x. key x \<noteq> key r) tbl @ [r]"

text \<open>The loop \<open>for _, r := range rows { stmt.Exec(...) }\<close> of \<open>upsertRelationships\<close>.\<close>

fun exec_rows :: "Relationship list \<Rightarrow> Relationship list \<Rightarrow> Relationship list" where
  "exec_rows [] tbl = tbl"
| "exec_rows (r # rows) tbl = exec_rows rows (insert_or_replace Username r tbl)"

text \<open>
  Every storage function takes the verdict \<open>drv\<close> of the database driver for the call:
  \<open>None\<close> when every statement of the call executes, \<open>Some e\<close> when one fails with
  the driver's error \<open>e\<close>. A failed statement changes nothing.

  \<open>upsertRelationships\<close> runs in one transaction, rolled back (\<open>defer tx.Rollback()\<close>)
  unless \<open>tx.Commit()\<close> succeeds; its verdict says which call failed. An \<open>Exec\<close> can
  only fail when there is a row to execute. The table name is formatted into the statement:
  only \<open>following\<close> and \<open>followers\<close> have the three columns, so preparing the
  statement fails for any other name.
\<close>

datatype tx_fault = BeginFailed error | PrepareFailed error | ExecFailed error | CommitFailed error

definition upsertRelationships ::
  "tx_fault option \<Rightarrow> db \<Rightarrow> string \<Rightarrow> Relationship list \<Rightarrow> db \<times> error option" where
  "upsertRelationships drv d table rows =
     (case drv of
        Some (BeginFailed e) \<Rightarrow> (d, Some (''begin tx: '' @ e))
      | Some (PrepareFailed e) \<Rightarrow> (d, Some (''prepare: '' @ e))
      | _ \<Rightarrow>
          if table \<noteq> ''following'' \<and> table \<noteq> ''followers''
          then (d, Some (''prepare: no such table or column: '' @ table))
          else
            (case drv of
               Some (ExecFailed e) \<Rightarrow>
                 if rows \<noteq> [] then (d, Some (''exec '' @ table @ '': '' @ e))
                 else if table = ''following''
                   then (d\<lparr>following := exec_rows rows (following d)\<rparr>, None)
                   else (d\<lparr>followers := exec_rows rows (followers d)\<rparr>, None)
             | Some (CommitFailed e) \<Rightarrow> (d, Some e)
             | _ \<Rightarrow>
                 if table = ''following''
                   then (d\<lparr>following := exec_rows rows (following d)\<rparr>, None)
                   else (d\<lparr>followers := exec_rows rows (followers d)\<rparr>, None)))"

definition UpsertFollowing :: "tx_fault option \<Rightarrow> db \<Rightarrow> Relationship list \<Rightarrow> db \<times> error option" where
  "UpsertFollowing drv d rows = upsertRelationships drv d ''following'' rows"

definition UpsertFollowers :: "tx_fault option \<Rightarrow> db \<Rightarrow> Relationship list \<Rightarrow> db \<times> error option" where
  "UpsertFollowers drv d rows = upsertRelationships drv d ''followers'' rows"

text \<open>
  The query of \<open>UnfollowCandidates\<close>: the rows of \<open>following\<close> with no row of the same
  username in \<open>followers\<close>, \<open>unfollowed\<close> or \<open>not_following\<close> (each \<open>LEFT JOIN\<close>
  with \<open>IS NULL\<close> on the joined key; usernames are bound from Go strings and are never
  NULL), \<open>ORDER BY f.timestamp DESC\<close>. SQL leaves the order of rows with equal
  timestamps to the engine; the model sorts stably, so ties keep the row order of the table.
\<close>

definition candidate_rows :: "db \<Rightarrow> Relationship list" where
  "candidate_rows d =
     sort_key (\<lambda>r. - Timestamp r)
       (filter (\<lambda>f. Username f \<notin> set (map Username (followers d)) \<and>
                    Username f \<notin> set (map fst (unfollowed d)) \<and>
                    Username f \<notin> set (map fst (not_following d)))
          (following d))"

text \<open>
  The query can fail, a \<open>Scan\<close> can fail, and the iteration can end early with
  \<open>rows.Err()\<close> after \<open>n\<close> rows were read.
\<close>

datatype query_fault = QueryFailed error | ScanFailed error | RowsErr nat error

definition UnfollowCandidates :: "query_fault option \<Rightarrow> db \<Rightarrow> Relationship list \<times> error option" where
  "UnfollowCandidates drv d =
     (case drv of
        Some (QueryFailed e) \<Rightarrow> ([], Some (''query candidates: '' @ e))
      | Some (ScanFailed e) \<Rightarrow> ([], Some (''scan: '' @ e))
      | Some (RowsErr n e) \<Rightarrow> (take n (candidate_rows d), Some e)
      | None \<Rightarrow> (candidate_rows d, None))"

text \<open>
  The statements that read the clock do it in SQL: \<open>strftime('%s', 'now')\<close>, the Unix
  time in seconds, passed here as \<open>now\<close>.
\<close>

definition MarkUnfollowed :: "error option \<Rightarrow> int \<Rightarrow> db \<Rightarrow> string \<Rightarrow> db \<times> error option" where
  "MarkUnfollowed drv now d u =
     (case drv of
        Some e \<Rightarrow> (d, Some (''mark unfollowed: '' @ e))
      | None \<Rightarrow> (d\<lparr>unfollowed := insert_or_replace fst (u, now) (unfollowed d)\<rparr>, None))"

definition UnfollowedCount :: "error option \<Rightarrow> db \<Rightarrow> int \<times> error option" where
  "UnfollowedCount drv d =
     (case drv of Some e \<Rightarrow> (0, Some e) | None \<Rightarrow> (int (length (unfollowed d)), None))"

definition RecordAction :: "error option \<Rightarrow> int \<Rightarrow> db \<Rightarrow> string \<Rightarrow> string \<Rightarrow> db \<times> error option" where
  "RecordAction drv now d actionType u =
     (case drv of
        Some e \<Rightarrow> (d, Some e)
      | None \<Rightarrow>
          (d\<lparr>session_actions := session_actions d @
                [\<lparr>action_type = actionType, username = u, action_at = now\<rparr>]\<rparr>, None))"

text \<open>The rows selected by \<open>WHERE action_type = ? AND action_at > (strftime('%s', 'now') - 3600)\<close>.\<close>

definition in_last_hour :: "int \<Rightarrow> db \<Rightarrow> string \<Rightarrow> session_action list" where
  "in_last_hour now d actionType =
     filter (\<lambda>a. action_type a = actionType \<and> action_at a > now - 3600) (session_actions d)"

definition ActionsInLastHour :: "error option \<Rightarrow> int \<Rightarrow> db \<Rightarrow> string \<Rightarrow> int \<times> error option" where
  "ActionsInLastHour drv now d actionType =
     (case drv of
        Some e \<Rightarrow> (0, Some e)
      | None \<Rightarrow> (int (length (in_last_hour now d actionType)), None))"

text \<open>\<open>SELECT COALESCE(MIN(action_at), 0)\<close> over the same rows.\<close>

definition OldestActionInLastHour :: "error option \<Rightarrow> int \<Rightarrow> db \<Rightarrow> string \<Rightarrow> int \<times> error option" where
  "OldestActionInLastHour drv now d actionType =
     (case drv of
        Some e \<Rightarrow> (0, Some e)
      | None \<Rightarrow>
          (case map action_at (in_last_hour now d actionType) of
             [] \<Rightarrow> (0, None)
           | t # ts \<Rightarrow> (min_list (t # ts), None)))"

definition MarkNotFollowing :: "error option \<Rightarrow> int \<Rightarrow> db \<Rightarrow> string \<Rightarrow> db \<times> error option" where
  "MarkNotFollowing drv now d u =
     (case drv of
        Some e \<Rightarrow> (d, Some e)
      | None \<Rightarrow> (d\<lparr>not_following := insert_or_replace fst (u, now) (not_following d)\<rparr>, None))"

definition RemoveFromFollowing :: "error option \<Rightarrow> db \<Rightarrow> string \<Rightarrow> db \<times> error option" where
  "RemoveFromFollowing drv d u =
     (case drv of
        Some e \<Rightarrow> (d, Some e)
      | None \<Rightarrow> (d\<lparr>following := filter (\<lambda>r. Username r \<noteq> u) (following d)\<rparr>, None))"

section \<open>Import (parseToDB)\<close>

text \<open>
  Reading and decoding the export is outside the model: an export is what
  \<open>extraction.ParseFollowing\<close>, \<open>extraction.FindFollowerFiles\<close> and
  \<open>extraction.ParseFollowers\<close> (one result per file found, with the file's path) return
  for it.
\<close>

record export =
  parse_following :: "Relationship list \<times> error option"
  find_files_err :: "error option"
  follower_files :: "(string \<times> Relationship list \<times> error option) list"

record import_faults =
  open_err :: "error option"
  upsert_following_drv :: "tx_fault option"
  upsert_followers_drv :: "tx_fault option"
  import_candidates_drv :: "query_fault option"

text \<open>
  The loop over the follower files: \<open>allFollowers = append(allFollowers, followers...)\<close>,
  returning at the first file that fails to parse.
\<close>

fun parse_files ::
  "(string \<times> Relationship list \<times> error option) list \<Rightarrow> Relationship list \<Rightarrow>
     Relationship list \<times> error option" where
  "parse_files [] allFollowers = (allFollowers, None)"
| "parse_files ((file, rows, err) # files) allFollowers =
     (case err of
        Some e \<Rightarrow> (allFollowers, Some (''parse '' @ file @ '': '' @ e))
      | None \<Rightarrow> parse_files files (allFollowers @ rows))"

text \<open>\<open>parseToDB\<close>, without its log lines. The candidates are only counted for the log.\<close>

definition parseToDB :: "import_faults \<Rightarrow> export \<Rightarrow> db \<Rightarrow> db \<times> error option" where
  "parseToDB flt ex d =
     (case open_err flt of
        Some e \<Rightarrow> (d, Some (''open db: '' @ e))
      | None \<Rightarrow>
     (case snd (parse_following ex) of
        Some e \<Rightarrow> (d, Some (''parse following: '' @ e))
      | None \<Rightarrow>
     (case UpsertFollowing (upsert_following_drv flt) d (fst (parse_following ex)) of
        (d1, Some e) \<Rightarrow> (d1, Some (''upsert following: '' @ e))
      | (d1, None) \<Rightarrow>
     (case find_files_err ex of
        Some e \<Rightarrow> (d1, Some (''find follower files: '' @ e))
      | None \<Rightarrow>
     (case parse_files (follower_files ex) [] of
        (_, Some e) \<Rightarrow> (d1, Some e)
      | (allFollowers, None) \<Rightarrow>
     (case UpsertFollowers (upsert_followers_drv flt) d1 allFollowers of
        (d2, Some e) \<Rightarrow> (d2, Some (''upsert followers: '' @ e))
      | (d2, None) \<Rightarrow>
     (case snd (UnfollowCandidates (import_candidates_drv flt) d2) of
        Some e \<Rightarrow> (d2, Some (''get candidates: '' @ e))
      | None \<Rightarrow> (d2, None))))))))"

section \<open>The browser's per-target state machine (Browser.Unfollow)\<close>

text \<open>
  The repository holds two versions of \<open>Browser.Unfollow\<close>; the later one adds random
  pauses and a simulated mouse, and returns the same results on the same answers. Pauses
  only take time (\<open>elapsed\<close> below).
\<close>

datatype UnfollowResult =
  UnfollowSuccess | UnfollowNotFollowing | UnfollowProfileUnavailable | UnfollowError

text \<open>
  The six \<open>chromedp.Run\<close> calls of \<open>Unfollow\<close>, in the order of the source: load the
  profile, look for the "profile gone" texts, read the follow button, click the
  \<open>Following\<close> button (the action), click \<open>Unfollow\<close> in the dialog (the confirmation),
  read the follow button again.
\<close>

datatype step =
  Navigate | CheckAvailability | CheckFollowStatus | ClickFollowing | ClickUnfollow | VerifyStatus

datatype level = Info | Warn | Error

text \<open>
  What the program does to the outside, in order: a remote step, a log line (level and
  message), a \<open>time.Sleep\<close> (nanoseconds), a call of \<open>Browser.Unfollow\<close> for a username.
\<close>

datatype event = Run step | Log level string | Sleep int | Call string

text \<open>
  What the remote site and the driver answer during one call of \<open>Unfollow\<close>: for each
  \<open>chromedp.Run\<close> its error, and the value the script evaluates to. \<open>elapsed\<close> is the time
  the call takes, in nanoseconds (page loads and the random human-like pauses).
\<close>

record page =
  navigate :: "error option"
  profileUnavailable :: "bool \<times> error option"
  followStatus :: "string \<times> error option"
  clicked :: "bool \<times> error option"
  unfollowClick :: "error option"
  newStatus :: "string \<times> error option"
  elapsed :: int

definition emit :: "event list \<Rightarrow> 'a \<times> event list \<Rightarrow> 'a \<times> event list" where
  "emit evs r = (fst r, evs @ snd r)"

definition Unfollow :: "page \<Rightarrow> string \<Rightarrow> (UnfollowResult \<times> error option) \<times> event list" where
  "Unfollow p u =
     emit [Log Info ''Checking user'', Run Navigate]
     (case navigate p of
        Some e \<Rightarrow> ((UnfollowError, Some (''navigate to profile: '' @ e)), [])
      | None \<Rightarrow>
     emit [Run CheckAvailability]
     (case snd (profileUnavailable p) of
        Some e \<Rightarrow> ((UnfollowError, Some (''check profile availability: '' @ e)), [])
      | None \<Rightarrow>
     if fst (profileUnavailable p)
     then ((UnfollowProfileUnavailable, None), [Log Info ''Profile unavailable, skipping''])
     else
     emit [Run CheckFollowStatus]
     (case snd (followStatus p) of
        Some e \<Rightarrow> ((UnfollowError, Some (''check follow status: '' @ e)), [])
      | None \<Rightarrow>
     if fst (followStatus p) = ''not_following''
     then ((UnfollowNotFollowing, None), [Log Info ''Not following this user, skipping''])
     else if fst (followStatus p) = ''unknown''
     then ((UnfollowError, Some (''could not determine follow status for '' @ u)),
           [Log Warn ''Could not determine follow status''])
     else
     emit [Log Info ''Unfollowing user'', Run ClickFollowing]
     (case snd (clicked p) of
        Some e \<Rightarrow> ((UnfollowError, Some (''click following button: '' @ e)), [])
      | None \<Rightarrow>
     if \<not> fst (clicked p)
     then ((UnfollowError, Some (''following button not found for '' @ u)), [])
     else
     emit [Run ClickUnfollow]
     (case unfollowClick p of
        Some e \<Rightarrow> ((UnfollowError, Some (''click unfollow in modal: '' @ e)), [])
      | None \<Rightarrow>
     emit [Run VerifyStatus]
     (case snd (newStatus p) of
        Some e \<Rightarrow> ((UnfollowError, Some (''verify unfollow status: '' @ e)), [])
      | None \<Rightarrow>
     if fst (newStatus p) = ''following''
     then ((UnfollowError, Some (''unfollow verification failed for '' @ u @ '' - still following'')),
           [Log Warn ''Unfollow may have failed - still showing Following button''])
     else if fst (newStatus p) = ''not_following''
     then ((UnfollowSuccess, None),
           [Log Info ''Unfollowed successfully - verified button changed to Follow''])
     else ((UnfollowSuccess, None),
           [Log Warn ''Could not verify unfollow status, assuming success''])))))))"

section \<open>The session controller (runUnfollow, calculateWaitTime)\<close>

text \<open>
  The repository holds a one-shot \<open>runUnfollow\<close>, which returns when the hourly limit
  is reached, and the continuous one with \<open>calculateWaitTime\<close>, which sleeps and goes
  on. The continuous one is modelled here.
\<close>

text \<open>
  A \<open>time.Duration\<close> is a signed 64-bit count of nanoseconds; Go's \<open>int\<close> has 64 bits
  on the supported platforms. \<open>int64\<close> is the value a 64-bit signed operation wraps to.
\<close>

definition int64 :: "int \<Rightarrow> int" where
  "int64 x = (x + 2 ^ 63) mod 2 ^ 64 - 2 ^ 63"

definition Second :: int where
  "Second = 1000000000"

definition Minute :: int where
  "Minute = 60 * Second"

definition Hour :: int where
  "Hour = 60 * Minute"

text \<open>
  A \<open>time.Time\<close> is its number of nanoseconds since the Unix epoch (exact for every
  time the program can meet: \<open>time.Time\<close> counts seconds in 64 bits). \<open>time.Until t\<close>
  is \<open>t.Sub(time.Now())\<close> on the wall clock, which saturates at the least and the greatest
  \<open>Duration\<close>.
\<close>

definition Until :: "int \<Rightarrow> int \<Rightarrow> int" where
  "Until now t =
     (let d = t - now in
      if d < - (2 ^ 63) then - (2 ^ 63) else if d > 2 ^ 63 - 1 then 2 ^ 63 - 1 else d)"

text \<open>
  \<open>calculateWaitTime\<close>. It reads the clock twice: in the query (\<open>sql_now\<close>, seconds) and in
  \<open>time.Until\<close> (\<open>go_now\<close>, nanoseconds).
\<close>

definition calculateWaitTime :: "error option \<Rightarrow> int \<Rightarrow> int \<Rightarrow> db \<Rightarrow> int" where
  "calculateWaitTime drv sql_now go_now d =
     (let (oldest, err) = OldestActionInLastHour drv sql_now d ''unfollow'' in
      if err \<noteq> None \<or> oldest = 0 then 5 * Minute
      else
        (let oldestTime = oldest * Second;
             freeAt = oldestTime + (1 * Hour + 1 * Minute);
             waitDuration = Until go_now freeAt
         in if waitDuration < 1 * Minute then 1 * Minute else waitDuration))"

text \<open>
  The two options \<open>runUnfollow\<close> reads: \<open>config.Instagram.AutomationLimits.Actions.Hourly\<close>
  and \<open>config.App.UnfollowDelaySeconds\<close>.
\<close>

record config =
  Hourly :: int
  UnfollowDelaySeconds :: int

text \<open>
  The state the controller works on: the database, the clock (nanoseconds since the epoch)
  and what it has done so far. The clock moves when the program sleeps and while the
  browser works; a storage call reads it in seconds.
\<close>

record world =
  store :: db
  clock :: int
  events :: "event list"

definition sleep :: "int \<Rightarrow> world \<Rightarrow> world" where
  "sleep d w = w\<lparr>clock := clock w + max 0 d, events := events w @ [Sleep d]\<rparr>"

definition logged :: "error option \<Rightarrow> level \<Rightarrow> string \<Rightarrow> event list" where
  "logged e lvl msg = (case e of None \<Rightarrow> [] | Some _ \<Rightarrow> [Log lvl msg])"

text \<open>
  What the outside answers while one candidate is processed: the page, and the driver's
  verdict for each storage call made for the candidate (numbered from 0).
\<close>

record visit =
  shown :: page
  faults :: "nat \<Rightarrow> error option"

text \<open>
  The storage calls of the \<open>switch result\<close> in the batch loop, with the log line of each
  call that fails. The counters and the \<open>continue\<close>s are in \<open>batch\<close>.
\<close>

definition apply_result :: "(nat \<Rightarrow> error option) \<Rightarrow> string \<Rightarrow> UnfollowResult \<Rightarrow> world \<Rightarrow> world" where
  "apply_result flt u result w =
     (let now = clock w div Second in
      case result of
        UnfollowSuccess \<Rightarrow>
          (let r1 = MarkUnfollowed (flt 0) now (store w) u;
               r2 = RecordAction (flt 1) now (fst r1) ''unfollow'' u;
               r3 = RemoveFromFollowing (flt 2) (fst r2) u
           in w\<lparr>store := fst r3,
                 events := events w
                   @ logged (snd r1) Error ''Failed to mark unfollowed in DB''
                   @ logged (snd r2) Error ''Failed to record action''
                   @ logged (snd r3) Error ''Failed to remove from following table''\<rparr>)
      | UnfollowNotFollowing \<Rightarrow>
          (let r1 = MarkNotFollowing (flt 0) now (store w) u;
               r2 = RemoveFromFollowing (flt 1) (fst r1) u
           in w\<lparr>store := fst r2,
                 events := events w
                   @ logged (snd r1) Error ''Failed to mark not following''
                   @ logged (snd r2) Error ''Failed to remove from following table''\<rparr>)
      | UnfollowProfileUnavailable \<Rightarrow>
          (let r1 = RemoveFromFollowing (flt 0) (store w) u;
               r2 = MarkNotFollowing (flt 1) now (fst r1) u
           in w\<lparr>store := fst r2,
                 events := events w
                   @ logged (snd r1) Error ''Failed to remove from following table''
                   @ logged (snd r2) Error ''Failed to mark not following''\<rparr>)
      | UnfollowError \<Rightarrow> w\<lparr>events := events w @ [Log Error ''Failed to unfollow'']\<rparr>)"

text \<open>
  One call of \<open>b.Unfollow(username)\<close> from the controller: the call and its remote steps
  are recorded and the clock moves by the time the call took.
\<close>

definition dispatch :: "page \<Rightarrow> string \<Rightarrow> world \<Rightarrow> world" where
  "dispatch p u w =
     w\<lparr>clock := clock w + elapsed p, events := events w @ [Call u] @ snd (Unfollow p u)\<rparr>"

text \<open>
  The loop \<open>for i, candidate := range candidates[:maxCount]\<close>: \<open>i\<close> is the index, the
  list is what is left of \<open>candidates[:maxCount]\<close>, the triple holds \<open>successful\<close>,
  \<open>skipped\<close> and \<open>unavailable\<close>.
\<close>

fun batch ::
  "int \<Rightarrow> int \<Rightarrow> int \<Rightarrow> (nat \<Rightarrow> visit) \<Rightarrow> nat \<Rightarrow> Relationship list \<Rightarrow> int \<times> int \<times> int \<Rightarrow> world \<Rightarrow>
     (int \<times> int \<times> int) \<times> world" where
  "batch remainingThisHour maxCount delay vs i [] counts w = (counts, w)"
| "batch remainingThisHour maxCount delay vs i (candidate # rest) (successful, skipped, unavailable) w =
     (let u = Username candidate;
          result = fst (fst (Unfollow (shown (vs i)) u));
          w1 = apply_result (faults (vs i)) u result (dispatch (shown (vs i)) u w)
      in case result of
           UnfollowSuccess \<Rightarrow>
             if successful + 1 \<ge> remainingThisHour
             then ((successful + 1, skipped, unavailable),
                   w1\<lparr>events := events w1 @ [Log Info ''Reached hourly limit'']\<rparr>)
             else batch remainingThisHour maxCount delay vs (Suc i) rest
                    (successful + 1, skipped, unavailable)
                    (if int i < maxCount - 1
                     then sleep (int64 (int64 delay * Second))
                            (w1\<lparr>events := events w1 @ [Log Info ''Waiting before next unfollow'']\<rparr>)
                     else w1)
         | UnfollowNotFollowing \<Rightarrow>
             batch remainingThisHour maxCount delay vs (Suc i) rest
               (successful, skipped + 1, unavailable) w1
         | UnfollowProfileUnavailable \<Rightarrow>
             batch remainingThisHour maxCount delay vs (Suc i) rest
               (successful, skipped, unavailable + 1) w1
         | UnfollowError \<Rightarrow>
             batch remainingThisHour maxCount delay vs (Suc i) rest
               (successful, skipped, unavailable) w1)"

text \<open>
  What the outside answers during one iteration of the main loop: the driver's verdicts for
  \<open>ActionsInLastHour\<close>, \<open>OldestActionInLastHour\<close> and \<open>UnfollowCandidates\<close>, and
  the visit for each index of the batch. (\<open>UnfollowedCount\<close> only fills an attribute of
  a log line, and its error is dropped.)
\<close>

record pass_env =
  actions_drv :: "error option"
  oldest_drv :: "error option"
  candidates_drv :: "query_fault option"
  visits :: "nat \<Rightarrow> visit"

text \<open>
  \<open>remainingThisHour\<close> as the loop computes it: a failed count is logged and taken as 0.
\<close>

definition remainingThisHour :: "config \<Rightarrow> pass_env \<Rightarrow> world \<Rightarrow> int" where
  "remainingThisHour cfg env w =
     (let r = ActionsInLastHour (actions_drv env) (clock w div Second) (store w) ''unfollow'';
          actionsLastHour = (if snd r \<noteq> None then 0 else fst r);
          remaining = int64 (Hourly cfg - actionsLastHour)
      in if remaining < 0 then 0 else remaining)"

datatype outcome = Continue | Return "error option"

text \<open>One iteration of the main loop \<open>for { ... }\<close> of \<open>runUnfollow\<close>.\<close>

definition pass :: "config \<Rightarrow> pass_env \<Rightarrow> world \<Rightarrow> outcome \<times> world" where
  "pass cfg env w =
     (let remaining = remainingThisHour cfg env w;
          w1 = w\<lparr>events := events w
                 @ [Log Info ''Previously unfollowed users'']
                 @ logged (snd (ActionsInLastHour (actions_drv env) (clock w div Second) (store w)
                      ''unfollow'')) Warn ''Could not check recent actions''
                 @ [Log Info ''Rate limit status'']\<rparr>
      in if remaining \<le> 0
         then
           (let waitDuration =
                  calculateWaitTime (oldest_drv env) (clock w1 div Second) (clock w1) (store w1)
            in (Continue,
                sleep waitDuration
                  (w1\<lparr>events := events w1
                        @ [Log Info ''Hourly rate limit reached, waiting for reset'']\<rparr>)))
         else
           (let r = UnfollowCandidates (candidates_drv env) (store w1);
                candidates = fst r
            in case snd r of
                 Some e \<Rightarrow> (Return (Some e), w1)
               | None \<Rightarrow>
                   (let w2 = w1\<lparr>events := events w1 @ [Log Info ''Loaded unfollow candidates'']\<rparr>
                    in if length candidates = 0
                       then (Return None,
                             w2\<lparr>events := events w2
                                  @ [Log Info ''No more unfollow candidates - all done!'']\<rparr>)
                       else
                         (let maxCount =
                                (if remaining > int (length candidates)
                                 then int (length candidates) else remaining);
                              w3 = snd (batch remaining maxCount (UnfollowDelaySeconds cfg)
                                     (visits env) 0 (take (nat maxCount) candidates) (0, 0, 0) w2)
                          in (Continue,
                              w3\<lparr>events := events w3 @ [Log Info ''Session batch complete'']\<rparr>)))))"

text \<open>
  The main loop has no bound in the source; \<open>main_loop\<close> runs at most \<open>fuel\<close>
  iterations and returns \<open>None\<close> when the loop is still running after them. \<open>envs k\<close>
  is the outside during iteration \<open>k\<close>.
\<close>

fun main_loop ::
  "config \<Rightarrow> (nat \<Rightarrow> pass_env) \<Rightarrow> nat \<Rightarrow> nat \<Rightarrow> world \<Rightarrow> error option option \<times> world" where
  "main_loop cfg envs 0 k w = (None, w)"
| "main_loop cfg envs (Suc fuel) k w =
     (case pass cfg (envs k) w of
        (Return e, w') \<Rightarrow> (Some e, w')
      | (Continue, w') \<Rightarrow> main_loop cfg envs fuel (Suc k) w')"

text \<open>
  \<open>runUnfollow\<close>: start the sleep inhibitor (a failure is only logged), open the
  database, start the browser, wait for the login, then run the main loop. The record says
  which of the four fails. The inhibitor's own log lines are left out.
\<close>

record startup =
  inhibit_err :: "error option"
  open_db_err :: "error option"
  browser_err :: "error option"
  login_err :: "error option"

definition runUnfollow ::
  "startup \<Rightarrow> config \<Rightarrow> (nat \<Rightarrow> pass_env) \<Rightarrow> nat \<Rightarrow> world \<Rightarrow> error option option \<times> world" where
  "runUnfollow st cfg envs fuel w =
     (let w0 = w\<lparr>events := events w @ logged (inhibit_err st) Warn ''Could not prevent system sleep''\<rparr>
      in case open_db_err st of
           Some e \<Rightarrow> (Some (Some e), w0)
         | None \<Rightarrow>
        (case browser_err st of
           Some e \<Rightarrow> (Some (Some e), w0)
         | None \<Rightarrow>
             (let w1 = w0\<lparr>events := events w0 @ [Log Info ''Checking login status...'']\<rparr>
              in case login_err st of
                   Some e \<Rightarrow> (Some (Some e), w1)
                 | None \<Rightarrow> main_loop cfg envs fuel 0 w1)))"

text \<open>The usernames \<open>Browser.Unfollow\<close> was called for, in order.\<close>

definition dispatched :: "event list \<Rightarrow> string list" where
  "dispatched evs = concat (map (\<lambda>e. case e of Call u \<Rightarrow> [u] | _ \<Rightarrow> []) evs)"


text \<open>The sleeps among the events.\<close>

definition sleeps :: "event list \<Rightarrow> int list" where
  "sleeps evs = concat (map (\<lambda>e. case e of Sleep d \<Rightarrow> [d] | _ \<Rightarrow> []) evs)"

section \<open>Example inputs\<close>

text \<open>
  A store in which \<open>a\<close> to \<open>e\<close> are followed, \<open>b\<close> follows back, \<open>d\<close> was unfollowed
  and \<open>e\<close> was found not to be followed.
\<close>

definition ex_db :: db where
  "ex_db =
     \<lparr>following =
        [\<lparr>Username = ''a'', Href = ''ha'', Timestamp = 10\<rparr>,
         \<lparr>Username = ''b'', Href = ''hb'', Timestamp = 30\<rparr>,
         \<lparr>Username = ''c'', Href = ''hc'', Timestamp = 20\<rparr>,
         \<lparr>Username = ''d'', Href = ''hd'', Timestamp = 40\<rparr>,
         \<lparr>Username = ''e'', Href = ''he'', Timestamp = 50\<rparr>],
      followers = [\<lparr>Username = ''b'', Href = ''hb'', Timestamp = 1\<rparr>],
      unfollowed = [(''d'', 7)],
      session_actions = [],
      not_following = [(''e'', 8)]\<rparr>"

text \<open>An export that names \<open>a\<close> twice among the followed accounts, and one follower file.\<close>

definition ex_export :: export where
  "ex_export =
     \<lparr>parse_following =
        ([\<lparr>Username = ''a'', Href = ''ha'', Timestamp = 11\<rparr>,
          \<lparr>Username = ''f'', Href = ''hf'', Timestamp = 60\<rparr>,
          \<lparr>Username = ''a'', Href = ''ha'', Timestamp = 12\<rparr>], None),
      find_files_err = None,
      follower_files =
        [(''followers_1.json'', [\<lparr>Username = ''f'', Href = ''hf'', Timestamp = 2\<rparr>], None)]\<rparr>"

definition no_import_faults :: import_faults where
  "no_import_faults =
     \<lparr>open_err = None, upsert_following_drv = None, upsert_followers_drv = None,
      import_candidates_drv = None\<rparr>"

text \<open>
  A profile that is available and followed, on which both clicks work and the button then
  reads \<open>Follow\<close>; the visit takes 20 seconds.
\<close>

definition ex_page :: page where
  "ex_page =
     \<lparr>navigate = None, profileUnavailable = (False, None), followStatus = (''following'', None),
      clicked = (True, None), unfollowClick = None, newStatus = (''not_following'', None),
      elapsed = 20 * Second\<rparr>"

text \<open>A store whose action log holds one unfollow of \<open>a\<close>, recorded at second \<open>t\<close>.\<close>

definition ex_log_db :: "int \<Rightarrow> db" where
  "ex_log_db t =
     empty_db\<lparr>session_actions :=
       [\<lparr>action_type = ''unfollow'', username = ''a'', action_at = t\<rparr>]\<rparr>"

text \<open>
  A configuration with an hourly limit of 1 and one with a limit of 5, an outside that
  never fails and always shows
  \<open>ex_page\<close>, a world on the example store with an empty action log, and one whose log
  holds an unfollow recorded a minute ago.
\<close>

definition ex_cfg :: config where
  "ex_cfg = \<lparr>Hourly = 1, UnfollowDelaySeconds = 60\<rparr>"


definition ex_visit :: visit where
  "ex_visit = \<lparr>shown = ex_page, faults = (\<lambda>k. None)\<rparr>"

definition ex_env :: pass_env where
  "ex_env = \<lparr>actions_drv = None, oldest_drv = None, candidates_drv = None, visits = (\<lambda>i. ex_visit)\<rparr>"

definition ex_world :: world where
  "ex_world = \<lparr>store = ex_db, clock = 1700000000 * Second, events = []\<rparr>"

definition ex_busy_world :: world where
  "ex_busy_world =
     \<lparr>store = ex_db\<lparr>session_actions :=
         [\<lparr>action_type = ''unfollow'', username = ''x'', action_at = 1699999940\<rparr>]\<rparr>,
      clock = 1700000000 * Second, events = []\<rparr>"

definition ex_startup :: startup where
  "ex_startup = \<lparr>inhibit_err = None, open_db_err = None, browser_err = None, login_err = None\<rparr>"

text \<open>The same outside, except that counting the recent actions fails.\<close>

definition ex_failing_env :: pass_env where
  "ex_failing_env = ex_env\<lparr>actions_drv := Some ''database is locked''\<rparr>"

text \<open>
  The outside that never fails, except that recording an action in the log fails (the
  second storage call made for a successful candidate).
\<close>

definition ex_norecord_env :: pass_env where
  "ex_norecord_env =
     ex_env\<lparr>visits := (\<lambda>i. ex_visit\<lparr>faults := (\<lambda>k. if k = 1 then Some ''disk is full'' else None)\<rparr>)\<rparr>"

section \<open>Properties of the storage layer\<close>

lemma set_candidate_rows:
  "set (candidate_rows d) =
     {r \<in> set (following d). Username r \<notin> Username ` set (followers d) \<and>
        Username r \<notin> fst ` set (unfollowed d) \<and> Username r \<notin> fst ` set (not_following d)}"
  by (auto simp: candidate_rows_def)

lemma sorted_candidate_rows: "sorted (rev (map Timestamp (candidate_rows d)))"
proof -
  have "sorted (map (\<lambda>r. - Timestamp r) (candidate_rows d))"
    unfolding candidate_rows_def by (rule sorted_sort_key)
  then have "sorted_wrt (\<lambda>x y. Timestamp y \<le> Timestamp x) (candidate_rows d)"
    by (simp add: sorted_wrt_map)
  then show ?thesis
    by (simp add: sorted_wrt_rev sorted_wrt_map rev_map [symmetric])
qed

text \<open>Candidates with the same timestamp come in the row order of \<open>following\<close>.\<close>

lemma candidate_rows_ties:
  "filter (\<lambda>r. Timestamp r = t) (candidate_rows d)
     = filter (\<lambda>r. Timestamp r = t) (filter (\<lambda>r. r \<in> set (candidate_rows d)) (following d))"
proof -
  let ?P = "\<lambda>f. Username f \<notin> set (map Username (followers d)) \<and>
                    Username f \<notin> set (map fst (unfollowed d)) \<and>
                    Username f \<notin> set (map fst (not_following d))"
  have "filter (\<lambda>r. - Timestamp r = - t) (sort_key (\<lambda>r. - Timestamp r) (filter ?P (following d)))
      = filter (\<lambda>r. - Timestamp r = - t) (filter ?P (following d))"
    by (rule sort_key_stable)
  moreover have "filter (\<lambda>r. r \<in> set (candidate_rows d)) (following d) = filter ?P (following d)"
    by (rule filter_cong) (auto simp: candidate_rows_def)
  ultimately show ?thesis
    by (simp add: candidate_rows_def)
qed

lemma distinct_candidate_rows:
  "distinct (map Username (following d)) \<Longrightarrow> distinct (map Username (candidate_rows d))"
  unfolding candidate_rows_def
  by (simp add: distinct_map distinct_map_filter inj_on_def)

lemma set_exec_rows: "set (exec_rows rows tbl) \<subseteq> set tbl \<union> set rows"
proof (induction rows arbitrary: tbl)
  case Nil
  then show ?case by simp
next
  case (Cons r rows)
  have "set (exec_rows (r # rows) tbl) \<subseteq> set (insert_or_replace Username r tbl) \<union> set rows"
    using Cons.IH by simp
  also have "\<dots> \<subseteq> set tbl \<union> set (r # rows)"
    by (auto simp: insert_or_replace_def)
  finally show ?case .
qed

text \<open>
  After an upsert the table holds its old rows with other usernames, in their order,
  followed by what the same upsert leaves in an empty table.
\<close>

lemma exec_rows_split:
  "exec_rows rows tbl =
     filter (\<lambda>x. Username x \<notin> Username ` set rows) tbl @ exec_rows rows []"
proof (induction rows arbitrary: tbl)
  case Nil
  then show ?case by simp
next
  case (Cons r rows)
  have "exec_rows (r # rows) tbl = exec_rows rows (insert_or_replace Username r tbl)" by simp
  also have "\<dots> = filter (\<lambda>x. Username x \<notin> Username ` set rows) (insert_or_replace Username r tbl)
                    @ exec_rows rows []"
    by (rule Cons.IH)
  finally have L: "exec_rows (r # rows) tbl =
      filter (\<lambda>x. Username x \<notin> Username ` set (r # rows)) tbl
      @ filter (\<lambda>x. Username x \<notin> Username ` set rows) [r] @ exec_rows rows []"
    by (simp add: insert_or_replace_def conj_commute)
  have "exec_rows (r # rows) [] = exec_rows rows [r]"
    by (simp add: insert_or_replace_def)
  also have "\<dots> = filter (\<lambda>x. Username x \<notin> Username ` set rows) [r] @ exec_rows rows []"
    by (rule Cons.IH)
  finally show ?case using L by simp
qed

lemma exec_rows_idem: "exec_rows rows (exec_rows rows tbl) = exec_rows rows tbl"
proof -
  let ?keep = "filter (\<lambda>x. Username x \<notin> Username ` set rows)"
  have e: "?keep (exec_rows rows []) = []"
    using set_exec_rows [of rows "[]"] by (auto simp: filter_empty_conv)
  have "exec_rows rows (exec_rows rows tbl) = ?keep (exec_rows rows tbl) @ exec_rows rows []"
    by (rule exec_rows_split)
  also have "?keep (exec_rows rows tbl) = ?keep (?keep tbl @ exec_rows rows [])"
    using exec_rows_split [of rows tbl] by simp
  also have "\<dots> = ?keep tbl"
    using e by simp
  also have "?keep tbl @ exec_rows rows [] = exec_rows rows tbl"
    by (rule exec_rows_split [symmetric])
  finally show ?thesis .
qed

lemma distinct_insert_or_replace:
  "distinct (map key tbl) \<Longrightarrow> distinct (map key (insert_or_replace key r tbl))"
  by (auto simp: insert_or_replace_def distinct_map_filter)

lemma distinct_exec_rows:
  "distinct (map Username tbl) \<Longrightarrow> distinct (map Username (exec_rows rows tbl))"
  by (induction rows arbitrary: tbl) (auto simp: distinct_insert_or_replace)

lemma schema_ok_empty_db: "schema_ok empty_db"
  by (simp add: schema_ok_def empty_db_def)

lemma schema_ok_upsertRelationships:
  "schema_ok d \<Longrightarrow> schema_ok (fst (upsertRelationships drv d table rows))"
  by (auto simp: upsertRelationships_def schema_ok_def distinct_exec_rows
      split: option.splits tx_fault.splits)

lemma schema_ok_MarkUnfollowed: "schema_ok d \<Longrightarrow> schema_ok (fst (MarkUnfollowed drv now d u))"
  by (auto simp: MarkUnfollowed_def schema_ok_def distinct_insert_or_replace split: option.splits)

lemma schema_ok_MarkNotFollowing: "schema_ok d \<Longrightarrow> schema_ok (fst (MarkNotFollowing drv now d u))"
  by (auto simp: MarkNotFollowing_def schema_ok_def distinct_insert_or_replace split: option.splits)

lemma schema_ok_RecordAction: "schema_ok d \<Longrightarrow> schema_ok (fst (RecordAction drv now d a u))"
  by (auto simp: RecordAction_def schema_ok_def split: option.splits)

lemma schema_ok_RemoveFromFollowing: "schema_ok d \<Longrightarrow> schema_ok (fst (RemoveFromFollowing drv d u))"
  by (auto simp: RemoveFromFollowing_def schema_ok_def distinct_map_filter split: option.splits)

subsection \<open>The candidate query\<close>

text \<open>
  Claim C1. For every state of the four tables, a successful \<open>UnfollowCandidates\<close>
  returns rows of \<open>following\<close> whose usernames are exactly those of \<open>following\<close> minus
  those of \<open>followers\<close>, \<open>unfollowed\<close> (actioned) and \<open>not_following\<close> (excluded), in
  descending order of timestamp; rows with equal timestamps come in the row order of
  \<open>following\<close>, so the list is determined by the store. No username of \<open>unfollowed\<close>
  or \<open>not_following\<close> is returned, also after any later import into \<open>following\<close>.
\<close>

theorem candidates_set_difference:
  "snd (UnfollowCandidates None d) = None \<and>
   set (map Username (fst (UnfollowCandidates None d))) =
     set (map Username (following d)) - set (map Username (followers d))
       - set (map fst (unfollowed d)) - set (map fst (not_following d)) \<and>
   set (fst (UnfollowCandidates None d)) \<subseteq> set (following d) \<and>
   sorted (rev (map Timestamp (fst (UnfollowCandidates None d)))) \<and>
   filter (\<lambda>r. Timestamp r = t) (fst (UnfollowCandidates None d))
     = filter (\<lambda>r. Timestamp r = t) (filter (\<lambda>r. r \<in> set (fst (UnfollowCandidates None d)))
         (following d)) \<and>
   set (map Username (fst (UnfollowCandidates None d)))
     \<inter> (set (map fst (unfollowed d)) \<union> set (map fst (not_following d))) = {} \<and>
   set (map Username (fst (UnfollowCandidates None (fst (UpsertFollowing drv d rows)))))
     \<inter> (set (map fst (unfollowed d)) \<union> set (map fst (not_following d))) = {}"
proof -
  have ties: "filter (\<lambda>r. Timestamp r = t) (candidate_rows d)
     = filter (\<lambda>r. Timestamp r = t) (filter (\<lambda>r. r \<in> set (candidate_rows d)) (following d))"
    by (rule candidate_rows_ties)
  have c: "fst (UnfollowCandidates None x) = candidate_rows x" for x
    by (simp add: UnfollowCandidates_def)
  have keep: "unfollowed (fst (UpsertFollowing drv d rows)) = unfollowed d"
    "not_following (fst (UpsertFollowing drv d rows)) = not_following d"
    by (auto simp: UpsertFollowing_def upsertRelationships_def split: option.splits tx_fault.splits)
  have excl: "set (map Username (candidate_rows x))
     \<inter> (set (map fst (unfollowed x)) \<union> set (map fst (not_following x))) = {}" for x
    by (auto simp: set_candidate_rows)
  have "set (map Username (candidate_rows d)) =
     set (map Username (following d)) - set (map Username (followers d))
       - set (map fst (unfollowed d)) - set (map fst (not_following d))"
    by (auto simp: set_candidate_rows)
  moreover have "set (candidate_rows d) \<subseteq> set (following d)"
    by (auto simp: set_candidate_rows)
  moreover have "snd (UnfollowCandidates None d) = None"
    by (simp add: UnfollowCandidates_def)
  ultimately show ?thesis
    using excl [of d] excl [of "fst (UpsertFollowing drv d rows)"] sorted_candidate_rows [of d] ties
    by (simp only: c keep)
qed

text \<open>
  On the example store the candidates are \<open>c\<close> then \<open>a\<close>; re-importing \<open>d\<close> and \<open>e\<close>
  into \<open>following\<close> does not bring them back.
\<close>

theorem candidates_set_difference_witness:
  "map Username (fst (UnfollowCandidates None ex_db)) = [''c'', ''a''] \<and>
   set (map Username (fst (UnfollowCandidates None ex_db))) =
     set (map Username (following ex_db)) - set (map Username (followers ex_db))
       - set (map fst (unfollowed ex_db)) - set (map fst (not_following ex_db)) \<and>
   set (map Username (fst (UnfollowCandidates None (fst (UpsertFollowing None ex_db
       [\<lparr>Username = ''d'', Href = ''hd'', Timestamp = 70\<rparr>,
        \<lparr>Username = ''e'', Href = ''he'', Timestamp = 80\<rparr>])))))
     \<inter> {''d'', ''e''} = {}"
proof -
  have 1: "map Username (fst (UnfollowCandidates None ex_db)) = [''c'', ''a'']"
    by (simp add: UnfollowCandidates_def candidate_rows_def ex_db_def)
  have 2: "set (map fst (unfollowed ex_db)) \<union> set (map fst (not_following ex_db)) = {''d'', ''e''}"
    by (auto simp: ex_db_def)
  show ?thesis
    using candidates_set_difference [of ex_db _ None
        "[\<lparr>Username = ''d'', Href = ''hd'', Timestamp = 70\<rparr>,
          \<lparr>Username = ''e'', Href = ''he'', Timestamp = 80\<rparr>]"] 1
    by (simp only: 2)
qed

text \<open>
  Claim C10. In every store state, that is whenever the primary keys of the schema hold,
  the list \<open>UnfollowCandidates\<close> returns holds each username at most once (also the
  partial list it returns beside an error). The lemmas \<open>schema_ok_*\<close> above show that
  the empty store satisfies the keys and every storage operation keeps them.
\<close>

theorem candidates_distinct:
  "schema_ok d \<Longrightarrow> distinct (map Username (fst (UnfollowCandidates drv d)))"
proof -
  assume "schema_ok d"
  then have d: "distinct (map Username (candidate_rows d))"
    by (simp add: schema_ok_def distinct_candidate_rows)
  then have "distinct (map Username (take n (candidate_rows d)))" for n
    by (simp add: take_map [symmetric])
  then show ?thesis using d
    by (auto simp: UnfollowCandidates_def split: option.splits query_fault.splits)
qed

theorem candidates_distinct_witness:
  "schema_ok ex_db \<and> distinct (map Username (fst (UnfollowCandidates None ex_db)))"
proof -
  have h: "schema_ok ex_db"
    by (simp add: schema_ok_def ex_db_def)
  show ?thesis
    using h candidates_distinct [OF h, of None] by simp
qed

subsection \<open>Import\<close>

lemma upsertRelationships_cases:
  "upsertRelationships drv d table rows = (d', e) \<Longrightarrow>
     (e \<noteq> None \<and> d' = d) \<or>
     (e = None \<and> table = ''following'' \<and> d' = d\<lparr>following := exec_rows rows (following d)\<rparr>) \<or>
     (e = None \<and> table = ''followers'' \<and> d' = d\<lparr>followers := exec_rows rows (followers d)\<rparr>)"
  by (auto simp: upsertRelationships_def split: option.splits tx_fault.splits if_splits)

lemma UpsertFollowing_None:
  "UpsertFollowing None d rows = (d\<lparr>following := exec_rows rows (following d)\<rparr>, None)"
  by (simp add: UpsertFollowing_def upsertRelationships_def)

lemma UpsertFollowers_None:
  "UpsertFollowers None d rows = (d\<lparr>followers := exec_rows rows (followers d)\<rparr>, None)"
  by (simp add: UpsertFollowers_def upsertRelationships_def)

text \<open>The store an import leaves when the driver does not fail.\<close>

lemma parseToDB_no_fault:
  "open_err flt = None \<Longrightarrow> upsert_following_drv flt = None \<Longrightarrow> upsert_followers_drv flt = None \<Longrightarrow>
   fst (parseToDB flt ex d) =
     (if snd (parse_following ex) \<noteq> None then d
      else if find_files_err ex \<noteq> None \<or> snd (parse_files (follower_files ex) []) \<noteq> None
      then d\<lparr>following := exec_rows (fst (parse_following ex)) (following d)\<rparr>
      else d\<lparr>following := exec_rows (fst (parse_following ex)) (following d),
             followers := exec_rows (fst (parse_files (follower_files ex) [])) (followers d)\<rparr>)"
  unfolding parseToDB_def
  by (auto simp: UpsertFollowing_None UpsertFollowers_None split: option.splits prod.splits)

text \<open>The stores an import can leave, whatever the driver does.\<close>

lemma parseToDB_result:
  "fst (parseToDB flt ex d) = d \<or>
   snd (parse_following ex) = None \<and>
   fst (parseToDB flt ex d) = d\<lparr>following := exec_rows (fst (parse_following ex)) (following d)\<rparr> \<or>
   snd (parse_following ex) = None \<and> find_files_err ex = None \<and>
   snd (parse_files (follower_files ex) []) = None \<and>
   fst (parseToDB flt ex d) = d\<lparr>following := exec_rows (fst (parse_following ex)) (following d),
            followers := exec_rows (fst (parse_files (follower_files ex) [])) (followers d)\<rparr>"
  unfolding parseToDB_def UpsertFollowing_def UpsertFollowers_def
  by (auto split: option.splits prod.splits dest!: upsertRelationships_cases)

text \<open>
  Claim C9. Import is idempotent: for every export, after an import that met no database
  failure, importing the same export again (whatever the driver does this time) leaves the
  store, and so its \<open>following\<close> and \<open>followers\<close> tables, exactly as the first import
  left them.
\<close>

theorem import_idempotent:
  assumes "open_err flt = None" and "upsert_following_drv flt = None"
    and "upsert_followers_drv flt = None"
  shows "fst (parseToDB flt' ex (fst (parseToDB flt ex d))) = fst (parseToDB flt ex d) \<and>
         following (fst (parseToDB flt' ex (fst (parseToDB flt ex d))))
           = following (fst (parseToDB flt ex d)) \<and>
         followers (fst (parseToDB flt' ex (fst (parseToDB flt ex d))))
           = followers (fst (parseToDB flt ex d))"
proof -
  let ?F = "fst (parse_following ex)" and ?G = "fst (parse_files (follower_files ex) [])"
  define d1 where "d1 = fst (parseToDB flt ex d)"
  have d1: "d1 =
     (if snd (parse_following ex) \<noteq> None then d
      else if find_files_err ex \<noteq> None \<or> snd (parse_files (follower_files ex) []) \<noteq> None
      then d\<lparr>following := exec_rows ?F (following d)\<rparr>
      else d\<lparr>following := exec_rows ?F (following d), followers := exec_rows ?G (followers d)\<rparr>)"
    unfolding d1_def using assms by (rule parseToDB_no_fault)
  have a: "snd (parse_following ex) = None \<Longrightarrow> d1\<lparr>following := exec_rows ?F (following d1)\<rparr> = d1"
    by (simp add: d1 exec_rows_idem)
  have b: "snd (parse_following ex) = None \<Longrightarrow> find_files_err ex = None \<Longrightarrow>
      snd (parse_files (follower_files ex) []) = None \<Longrightarrow>
      d1\<lparr>following := exec_rows ?F (following d1), followers := exec_rows ?G (followers d1)\<rparr> = d1"
    by (simp add: d1 exec_rows_idem)
  have "fst (parseToDB flt' ex d1) = d1"
    using parseToDB_result [of flt' ex d1] a b by metis
  then show ?thesis by (simp add: d1_def)
qed

theorem import_idempotent_witness:
  "open_err no_import_faults = None \<and> upsert_following_drv no_import_faults = None \<and>
   upsert_followers_drv no_import_faults = None \<and>
   map Username (following (fst (parseToDB no_import_faults ex_export ex_db)))
     = [''b'', ''c'', ''d'', ''e'', ''f'', ''a''] \<and>
   fst (parseToDB no_import_faults ex_export (fst (parseToDB no_import_faults ex_export ex_db)))
     = fst (parseToDB no_import_faults ex_export ex_db)"
proof -
  have h: "open_err no_import_faults = None" "upsert_following_drv no_import_faults = None"
    "upsert_followers_drv no_import_faults = None"
    by (simp_all add: no_import_faults_def)
  have v: "map Username (following (fst (parseToDB no_import_faults ex_export ex_db)))
     = [''b'', ''c'', ''d'', ''e'', ''f'', ''a'']"
    by (simp add: parseToDB_no_fault [OF h] ex_export_def ex_db_def insert_or_replace_def)
  show ?thesis
    using h v import_idempotent [OF h, of no_import_faults ex_export ex_db] by simp
qed

section \<open>Properties of the per-target state machine\<close>

text \<open>The verification step is only run after every earlier step went through.\<close>

lemma verify_reached:
  "Run VerifyStatus \<in> set (snd (Unfollow p u)) \<Longrightarrow>
     navigate p = None \<and> snd (profileUnavailable p) = None \<and> \<not> fst (profileUnavailable p) \<and>
     snd (followStatus p) = None \<and> fst (followStatus p) \<noteq> ''not_following'' \<and>
     fst (followStatus p) \<noteq> ''unknown'' \<and> snd (clicked p) = None \<and> fst (clicked p) \<and>
     unfollowClick p = None"
  by (auto simp: Unfollow_def emit_def split: option.splits if_splits)

text \<open>
  Claim C3. When \<open>Unfollow\<close> runs its verification step and the step returns a status:
  \<open>following\<close> gives \<open>UnfollowError\<close> with an error (never \<open>UnfollowSuccess\<close>),
  \<open>not_following\<close> gives \<open>UnfollowSuccess\<close>, and \<open>unknown\<close> gives \<open>UnfollowSuccess\<close>
  after a warning in the log.
\<close>

theorem verify_step:
  assumes "Run VerifyStatus \<in> set (snd (Unfollow p u))" and "snd (newStatus p) = None"
  shows "(fst (newStatus p) = ''following'' \<longrightarrow>
            fst (fst (Unfollow p u)) = UnfollowError \<and> snd (fst (Unfollow p u)) \<noteq> None) \<and>
         (fst (newStatus p) = ''not_following'' \<longrightarrow> fst (Unfollow p u) = (UnfollowSuccess, None)) \<and>
         (fst (newStatus p) = ''unknown'' \<longrightarrow>
            fst (Unfollow p u) = (UnfollowSuccess, None) \<and>
            last (snd (Unfollow p u)) = Log Warn ''Could not verify unfollow status, assuming success'')"
  using verify_reached [OF assms(1)] assms(2)
  by (simp add: Unfollow_def emit_def)

theorem verify_step_witness:
  "Run VerifyStatus \<in> set (snd (Unfollow ex_page ''a'')) \<and>
   fst (Unfollow ex_page ''a'') = (UnfollowSuccess, None) \<and>
   Run VerifyStatus \<in> set (snd (Unfollow (ex_page\<lparr>newStatus := (''following'', None)\<rparr>) ''a'')) \<and>
   fst (fst (Unfollow (ex_page\<lparr>newStatus := (''following'', None)\<rparr>) ''a'')) = UnfollowError \<and>
   Run VerifyStatus \<in> set (snd (Unfollow (ex_page\<lparr>newStatus := (''unknown'', None)\<rparr>) ''a'')) \<and>
   fst (Unfollow (ex_page\<lparr>newStatus := (''unknown'', None)\<rparr>) ''a'') = (UnfollowSuccess, None) \<and>
   last (snd (Unfollow (ex_page\<lparr>newStatus := (''unknown'', None)\<rparr>) ''a''))
     = Log Warn ''Could not verify unfollow status, assuming success''"
proof -
  have r: "Run VerifyStatus \<in> set (snd (Unfollow (ex_page\<lparr>newStatus := (s, None)\<rparr>) ''a''))" for s
    by (simp add: Unfollow_def emit_def ex_page_def)
  have r0: "Run VerifyStatus \<in> set (snd (Unfollow ex_page ''a''))"
    by (simp add: Unfollow_def emit_def ex_page_def)
  have n: "snd (newStatus (ex_page\<lparr>newStatus := (s, None)\<rparr>)) = None" for s
    by simp
  have n0: "snd (newStatus ex_page) = None"
    by (simp add: ex_page_def)
  have s0: "fst (newStatus ex_page) = ''not_following''"
    by (simp add: ex_page_def)
  show ?thesis
    using r r0 s0 verify_step [OF r0 n0] verify_step [OF r n, of "''following''"]
      verify_step [OF r n, of "''unknown''"]
    by simp
qed

text \<open>
  Claim C8. When the relationship classification returns \<open>not_following\<close>, \<open>Unfollow\<close>
  runs neither the action step (the click on \<open>Following\<close>) nor the confirmation step (the
  click on \<open>Unfollow\<close>), and whenever the classification was run the outcome is
  \<open>UnfollowNotFollowing\<close> with no error.
\<close>

theorem not_following_skips:
  assumes "followStatus p = (''not_following'', None)"
  shows "Run ClickFollowing \<notin> set (snd (Unfollow p u)) \<and>
         Run ClickUnfollow \<notin> set (snd (Unfollow p u)) \<and>
         (Run CheckFollowStatus \<in> set (snd (Unfollow p u)) \<longrightarrow>
            fst (Unfollow p u) = (UnfollowNotFollowing, None))"
  using assms
  by (auto simp: Unfollow_def emit_def split: option.splits if_splits)

theorem not_following_skips_witness:
  "followStatus (ex_page\<lparr>followStatus := (''not_following'', None)\<rparr>) = (''not_following'', None) \<and>
   Run CheckFollowStatus \<in> set (snd (Unfollow (ex_page\<lparr>followStatus := (''not_following'', None)\<rparr>) ''a'')) \<and>
   Run ClickFollowing \<notin> set (snd (Unfollow (ex_page\<lparr>followStatus := (''not_following'', None)\<rparr>) ''a'')) \<and>
   Run ClickUnfollow \<notin> set (snd (Unfollow (ex_page\<lparr>followStatus := (''not_following'', None)\<rparr>) ''a'')) \<and>
   fst (Unfollow (ex_page\<lparr>followStatus := (''not_following'', None)\<rparr>) ''a'')
     = (UnfollowNotFollowing, None)"
proof -
  have h: "followStatus (ex_page\<lparr>followStatus := (''not_following'', None)\<rparr>)
      = (''not_following'', None)"
    by simp
  have r: "Run CheckFollowStatus
      \<in> set (snd (Unfollow (ex_page\<lparr>followStatus := (''not_following'', None)\<rparr>) ''a''))"
    by (simp add: Unfollow_def emit_def ex_page_def)
  show ?thesis
    using h r not_following_skips [OF h, of "''a''"] by simp
qed

section \<open>Properties of the wait computation\<close>




lemma wait_from_oldest:
  assumes "OldestActionInLastHour drv sql_now d ''unfollow'' = (oldest, None)" and "oldest \<noteq> 0"
    and "oldest * Second + Hour + 60 * Second - go_now \<le> 2 ^ 63 - 1"
  shows "calculateWaitTime drv sql_now go_now d
           = max (1 * Minute) (oldest * Second + Hour + 60 * Second - go_now)"
  using assms(2,3)
  by (simp add: calculateWaitTime_def assms(1) Until_def Let_def Minute_def Hour_def Second_def max_def)



text \<open>
  Claim C7, as the code has it. With exactly one unfollow entry in the window, recorded
  59 minutes before \<open>now\<close>, \<open>calculateWaitTime\<close> returns 120 seconds less the sub-second
  part of \<open>now\<close> (entry + 1 hour + 60 seconds - now is 2 minutes), which is never below
  the 1-minute floor. It is not about 61 seconds.
\<close>

theorem wait_59_minutes:
  assumes "in_last_hour sql_now d ''unfollow''
             = [\<lparr>action_type = ''unfollow'', username = u, action_at = sql_now - 59 * 60\<rparr>]"
    and "sql_now \<noteq> 59 * 60" and "go_now div Second = sql_now"
  shows "calculateWaitTime None sql_now go_now d = 120 * Second - go_now mod Second \<and>
         119 * Second < calculateWaitTime None sql_now go_now d \<and>
         calculateWaitTime None sql_now go_now d \<le> 120 * Second \<and>
         1 * Minute \<le> calculateWaitTime None sql_now go_now d"
proof -
  have o: "OldestActionInLastHour None sql_now d ''unfollow'' = (sql_now - 59 * 60, None)"
    by (simp add: OldestActionInLastHour_def assms(1))
  have g: "go_now = sql_now * Second + go_now mod Second"
    using assms(3) by (metis mult.commute mult_div_mod_eq)
  have m: "0 \<le> go_now mod Second" "go_now mod Second < Second"
    by (simp_all add: Second_def)
  have nz: "sql_now - 59 * 60 \<noteq> 0"
    using assms(2) by simp
  have fits: "(sql_now - 59 * 60) * Second + Hour + 60 * Second - go_now \<le> 2 ^ 63 - 1"
    using m by (subst g) (simp add: Second_def Hour_def Minute_def)
  have v: "(sql_now - 59 * 60) * Second + Hour + 60 * Second - go_now
      = 120 * Second - go_now mod Second"
    by (subst g) (simp add: Second_def Hour_def Minute_def)
  have "calculateWaitTime None sql_now go_now d
      = max (1 * Minute) (120 * Second - go_now mod Second)"
    using wait_from_oldest [OF o nz fits] by (simp only: v)
  also have "\<dots> = 120 * Second - go_now mod Second"
    using m by (simp add: Second_def Minute_def)
  finally show ?thesis using m by (simp add: Second_def Minute_def)
qed

theorem wait_59_minutes_witness:
  "in_last_hour 1700000000 (ex_log_db (1700000000 - 59 * 60)) ''unfollow''
     = [\<lparr>action_type = ''unfollow'', username = ''a'', action_at = 1700000000 - 59 * 60\<rparr>] \<and>
   (1700000000 * Second + 250000000) div Second = 1700000000 \<and>
   calculateWaitTime None 1700000000 (1700000000 * Second + 250000000)
     (ex_log_db (1700000000 - 59 * 60)) = 119750000000"
proof -
  have w: "in_last_hour 1700000000 (ex_log_db (1700000000 - 59 * 60)) ''unfollow''
      = [\<lparr>action_type = ''unfollow'', username = ''a'', action_at = 1700000000 - 59 * 60\<rparr>]"
    by (simp add: in_last_hour_def ex_log_db_def empty_db_def)
  have n: "(1700000000::int) \<noteq> 59 * 60" by simp
  have g: "(1700000000 * Second + 250000000) div Second = 1700000000"
    by (simp add: Second_def)
  show ?thesis
    using w g wait_59_minutes [OF w n g] by (simp add: Second_def)
qed

text \<open>
  The claim as the specification states it fails: at \<open>now\<close> = 1700000000 s, with the one
  entry 59 minutes earlier, the wait is exactly 120 seconds, 59 seconds away from 61.
\<close>

theorem wait_59_minutes_counterexample:
  "calculateWaitTime None 1700000000 (1700000000 * Second) (ex_log_db (1700000000 - 59 * 60))
     = 120 * Second \<and>
   \<not> \<bar>calculateWaitTime None 1700000000 (1700000000 * Second) (ex_log_db (1700000000 - 59 * 60))
        - 61 * Second\<bar> \<le> 10 * Second"
  by (simp add: calculateWaitTime_def OldestActionInLastHour_def in_last_hour_def ex_log_db_def
      empty_db_def Until_def Let_def Second_def Minute_def Hour_def)

section \<open>Properties of the session controller\<close>

subsection \<open>Which candidates are dispatched\<close>

lemma dispatched_append: "dispatched (xs @ ys) = dispatched xs @ dispatched ys"
  by (simp add: dispatched_def)

lemma dispatched_simps:
  "dispatched [] = []"
  "dispatched (Call u # evs) = u # dispatched evs"
  "dispatched (Log l m # evs) = dispatched evs"
  "dispatched (Run s # evs) = dispatched evs"
  "dispatched (Sleep t # evs) = dispatched evs"
  by (simp_all add: dispatched_def)

lemma dispatched_logged: "dispatched (logged e l m) = []"
  by (simp add: logged_def dispatched_simps split: option.splits)

lemma dispatched_Unfollow: "dispatched (snd (Unfollow p u)) = []"
  by (simp add: Unfollow_def emit_def dispatched_simps split: option.splits)

lemma dispatched_apply_result:
  "dispatched (events (apply_result flt u r w)) = dispatched (events w)"
  by (cases r) (simp_all add: apply_result_def Let_def dispatched_append dispatched_logged dispatched_simps)

lemma dispatched_dispatch:
  "dispatched (events (dispatch p u w)) = dispatched (events w) @ [u]"
  by (simp add: dispatch_def dispatched_append dispatched_Unfollow dispatched_simps)

lemma dispatched_sleep: "dispatched (events (sleep t w)) = dispatched (events w)"
  by (simp add: sleep_def dispatched_append dispatched_simps)

lemma batch_dispatched:
  "\<exists>n \<le> length cs. dispatched (events (snd (batch R M D vs i cs cnt w)))
      = dispatched (events w) @ map Username (take n cs)"
proof (induction cs arbitrary: i cnt w)
  case Nil
  then show ?case by simp
next
  case (Cons c cs)
  obtain s k a where cnt: "cnt = (s, k, a)" by (cases cnt) auto
  define u where "u = Username c"
  define r where "r = fst (fst (Unfollow (shown (vs i)) u))"
  define w1 where "w1 = apply_result (faults (vs i)) u r (dispatch (shown (vs i)) u w)"
  have d1: "dispatched (events w1) = dispatched (events w) @ [u]"
    by (simp add: w1_def dispatched_apply_result dispatched_dispatch)
  have stop: "\<exists>n \<le> length (c # cs). dispatched (events w1) @ extra
      = dispatched (events w) @ map Username (take n (c # cs))" if "extra = []" for extra
    using that by (intro exI [of _ 1]) (simp add: d1 u_def)
  have go: "\<exists>n \<le> length (c # cs). dispatched (events (snd (batch R M D vs (Suc i) cs cnt' w')))
      = dispatched (events w) @ map Username (take n (c # cs))"
    if "dispatched (events w') = dispatched (events w1)" for cnt' w'
  proof -
    obtain n where n: "n \<le> length cs"
      "dispatched (events (snd (batch R M D vs (Suc i) cs cnt' w')))
         = dispatched (events w') @ map Username (take n cs)"
      using Cons.IH by blast
    show ?thesis
      using n that by (intro exI [of _ "Suc n"]) (simp add: d1 u_def)
  qed
  have step: "batch R M D vs i (c # cs) cnt w =
     (case r of
        UnfollowSuccess \<Rightarrow>
          if s + 1 \<ge> R
          then ((s + 1, k, a), w1\<lparr>events := events w1 @ [Log Info ''Reached hourly limit'']\<rparr>)
          else batch R M D vs (Suc i) cs (s + 1, k, a)
                 (if int i < M - 1
                  then sleep (int64 (int64 D * Second))
                         (w1\<lparr>events := events w1 @ [Log Info ''Waiting before next unfollow'']\<rparr>)
                  else w1)
      | UnfollowNotFollowing \<Rightarrow> batch R M D vs (Suc i) cs (s, k + 1, a) w1
      | UnfollowProfileUnavailable \<Rightarrow> batch R M D vs (Suc i) cs (s, k, a + 1) w1
      | UnfollowError \<Rightarrow> batch R M D vs (Suc i) cs (s, k, a) w1)"
    unfolding w1_def r_def u_def cnt by (simp add: Let_def)
  show ?case
  proof (cases r)
    case UnfollowSuccess
    show ?thesis
    proof (cases "s + 1 \<ge> R")
      case True
      then show ?thesis
        using stop [of "[]"]
        by (simp add: step UnfollowSuccess dispatched_append dispatched_simps)
    next
      case False
      then show ?thesis
        using go [of "if int i < M - 1 then sleep (int64 (int64 D * Second))
                    (w1\<lparr>events := events w1 @ [Log Info ''Waiting before next unfollow'']\<rparr>) else w1"
                 "(s + 1, k, a)"]
        by (simp add: step UnfollowSuccess dispatched_append dispatched_simps dispatched_sleep)
    qed
  next
    case UnfollowNotFollowing
    then show ?thesis
      using go [of w1 "(s, k + 1, a)"] by (simp add: step)
  next
    case UnfollowProfileUnavailable
    then show ?thesis
      using go [of w1 "(s, k, a + 1)"] by (simp add: step)
  next
    case UnfollowError
    then show ?thesis
      using go [of w1 "(s, k, a)"] by (simp add: step)
  qed
qed

lemma pass_cooldown:
  assumes "remainingThisHour cfg env w = 0"
  shows "fst (pass cfg env w) = Continue"
    and "store (snd (pass cfg env w)) = store w"
    and "dispatched (events (snd (pass cfg env w))) = dispatched (events w)"
    and "last (events (snd (pass cfg env w)))
           = Sleep (calculateWaitTime (oldest_drv env) (clock w div Second) (clock w) (store w))"
    and "clock (snd (pass cfg env w))
           = clock w + max 0 (calculateWaitTime (oldest_drv env) (clock w div Second) (clock w) (store w))"
  using assms
  by (simp_all add: pass_def Let_def sleep_def dispatched_append dispatched_simps dispatched_logged)

lemma remaining_nonneg: "0 \<le> remainingThisHour cfg env w"
  by (simp add: remainingThisHour_def Let_def)

lemma pass_dispatched:
  "\<exists>n. int n \<le> remainingThisHour cfg env w \<and>
       n \<le> length (fst (UnfollowCandidates (candidates_drv env) (store w))) \<and>
       dispatched (events (snd (pass cfg env w)))
         = dispatched (events w)
           @ map Username (take n (fst (UnfollowCandidates (candidates_drv env) (store w))))"
proof (cases "remainingThisHour cfg env w \<le> 0 \<or> snd (UnfollowCandidates (candidates_drv env) (store w)) \<noteq> None
    \<or> fst (UnfollowCandidates (candidates_drv env) (store w)) = []")
  case True
  then show ?thesis
    using remaining_nonneg [of cfg env w]
    by (intro exI [of _ 0])
      (auto simp: pass_def Let_def sleep_def dispatched_append dispatched_simps dispatched_logged
         split: option.splits)
next
  case False
  define R where "R = remainingThisHour cfg env w"
  define cs where "cs = fst (UnfollowCandidates (candidates_drv env) (store w))"
  define M where "M = (if R > int (length cs) then int (length cs) else R)"
  define w2 where "w2 = w\<lparr>events := events w
                 @ [Log Info ''Previously unfollowed users'']
                 @ logged (snd (ActionsInLastHour (actions_drv env) (clock w div Second) (store w)
                      ''unfollow'')) Warn ''Could not check recent actions''
                 @ [Log Info ''Rate limit status'']
                 @ [Log Info ''Loaded unfollow candidates'']\<rparr>"
  have p: "snd (pass cfg env w) =
     (snd (batch R M (UnfollowDelaySeconds cfg) (visits env) 0 (take (nat M) cs) (0, 0, 0) w2))
       \<lparr>events := events (snd (batch R M (UnfollowDelaySeconds cfg) (visits env) 0 (take (nat M) cs) (0, 0, 0) w2))
           @ [Log Info ''Session batch complete'']\<rparr>"
    using False unfolding w2_def M_def cs_def R_def
    by (auto simp: pass_def Let_def split: option.splits)
  obtain n where n: "n \<le> length (take (nat M) cs)"
    "dispatched (events (snd (batch R M (UnfollowDelaySeconds cfg) (visits env) 0 (take (nat M) cs) (0, 0, 0) w2)))
       = dispatched (events w2) @ map Username (take n (take (nat M) cs))"
    using batch_dispatched by blast
  have "0 < R"
    using False by (simp add: R_def)
  then have b: "int n \<le> R" "n \<le> length cs"
    using n(1) by (auto simp: M_def split: if_splits)
  have "nat M \<le> length cs"
    unfolding M_def by (cases "R > int (length cs)") simp_all
  then have "n \<le> nat M"
    using n(1) by simp
  then have t: "take n (take (nat M) cs) = take n cs"
    by (simp add: min_def)
  have e: "dispatched (events w2) = dispatched (events w)"
    by (simp add: w2_def dispatched_append dispatched_simps dispatched_logged)
  have "dispatched (events (snd (pass cfg env w))) = dispatched (events w) @ map Username (take n cs)"
    using n(2) by (simp only: p t e) (simp add: dispatched_append dispatched_simps)
  then show ?thesis
    using b unfolding R_def cs_def by blast
qed


lemma store_dispatch: "store (dispatch p u w) = store w"
  by (simp add: dispatch_def)





subsection \<open>How an iteration ends\<close>

lemma remaining_on_failure:
  "actions_drv env = Some e \<Longrightarrow>
     remainingThisHour cfg env w = (if int64 (Hourly cfg) < 0 then 0 else int64 (Hourly cfg))"
  by (simp add: remainingThisHour_def ActionsInLastHour_def Let_def)

lemma remaining_on_success:
  "actions_drv env = None \<Longrightarrow>
     remainingThisHour cfg env w =
       (let r = int64 (Hourly cfg - int (length (in_last_hour (clock w div Second) (store w) ''unfollow'')))
        in if r < 0 then 0 else r)"
  by (simp add: remainingThisHour_def ActionsInLastHour_def Let_def)

lemma fst_pass:
  "fst (pass cfg env w) =
     (if remainingThisHour cfg env w \<le> 0 then Continue
      else case snd (UnfollowCandidates (candidates_drv env) (store w)) of
             Some x \<Rightarrow> Return (Some x)
           | None \<Rightarrow>
               if fst (UnfollowCandidates (candidates_drv env) (store w)) = [] then Return None
               else Continue)"
  by (simp add: pass_def Let_def split: option.splits)

lemma pass_returns_error:
  "fst (pass cfg env w) = Return (Some x) \<Longrightarrow>
     0 < remainingThisHour cfg env w \<and> snd (UnfollowCandidates (candidates_drv env) (store w)) = Some x"
  by (simp add: fst_pass split: option.splits if_splits)

lemma pass_candidates_error:
  "0 < remainingThisHour cfg env w \<Longrightarrow>
   snd (UnfollowCandidates (candidates_drv env) (store w)) = Some x \<Longrightarrow>
     fst (pass cfg env w) = Return (Some x)"
  by (simp add: fst_pass)

lemma events_apply_result: "\<exists>evs. events (apply_result flt u r w) = events w @ evs"
  by (cases r) (simp_all add: apply_result_def Let_def)

lemma events_batch: "\<exists>evs. events (snd (batch R M D vs i cs cnt w)) = events w @ evs"
proof (induction cs arbitrary: i cnt w)
  case Nil
  then show ?case by simp
next
  case (Cons c cs)
  obtain s k a where cnt: "cnt = (s, k, a)" by (cases cnt) auto
  define r where "r = fst (fst (Unfollow (shown (vs i)) (Username c)))"
  define w1 where "w1 = apply_result (faults (vs i)) (Username c) r (dispatch (shown (vs i)) (Username c) w)"
  obtain e1 where e1: "events w1 = events w @ e1"
    using events_apply_result [of "faults (vs i)" "Username c" r "dispatch (shown (vs i)) (Username c) w"]
    by (auto simp: w1_def dispatch_def)
  have go: "\<exists>evs. events (snd (batch R M D vs (Suc i) cs cnt' w')) = events w @ evs"
    if "\<exists>e2. events w' = events w1 @ e2" for cnt' w'
    using Cons.IH [of "Suc i" cnt' w'] that e1 by auto
  have step: "batch R M D vs i (c # cs) cnt w =
     (case r of
        UnfollowSuccess \<Rightarrow>
          if s + 1 \<ge> R
          then ((s + 1, k, a), w1\<lparr>events := events w1 @ [Log Info ''Reached hourly limit'']\<rparr>)
          else batch R M D vs (Suc i) cs (s + 1, k, a)
                 (if int i < M - 1
                  then sleep (int64 (int64 D * Second))
                         (w1\<lparr>events := events w1 @ [Log Info ''Waiting before next unfollow'']\<rparr>)
                  else w1)
      | UnfollowNotFollowing \<Rightarrow> batch R M D vs (Suc i) cs (s, k + 1, a) w1
      | UnfollowProfileUnavailable \<Rightarrow> batch R M D vs (Suc i) cs (s, k, a + 1) w1
      | UnfollowError \<Rightarrow> batch R M D vs (Suc i) cs (s, k, a) w1)"
    unfolding w1_def r_def cnt by (simp add: Let_def)
  show ?case
  proof (cases r)
    case UnfollowSuccess
    show ?thesis
    proof (cases "s + 1 \<ge> R")
      case True
      then show ?thesis by (simp add: step UnfollowSuccess e1)
    next
      case False
      have "\<exists>e2. events (if int i < M - 1
                  then sleep (int64 (int64 D * Second))
                         (w1\<lparr>events := events w1 @ [Log Info ''Waiting before next unfollow'']\<rparr>)
                  else w1) = events w1 @ e2"
        by (simp add: sleep_def)
      then show ?thesis
        using False go by (simp add: step UnfollowSuccess)
    qed
  next
    case UnfollowNotFollowing
    then show ?thesis using go [of w1] by (simp add: step)
  next
    case UnfollowProfileUnavailable
    then show ?thesis using go [of w1] by (simp add: step)
  next
    case UnfollowError
    then show ?thesis using go [of w1] by (simp add: step)
  qed
qed

lemma pass_warns:
  assumes "actions_drv env = Some e"
  shows "Log Warn ''Could not check recent actions'' \<in> set (events (snd (pass cfg env w)))"
proof -
  define w1 where "w1 = w\<lparr>events := events w
       @ [Log Info ''Previously unfollowed users'', Log Warn ''Could not check recent actions'',
          Log Info ''Rate limit status'']\<rparr>"
  have "\<exists>evs. events (snd (pass cfg env w)) = events w1 @ evs"
  proof (cases "remainingThisHour cfg env w \<le> 0")
    case True
    then show ?thesis
      using assms by (simp add: pass_def Let_def sleep_def w1_def ActionsInLastHour_def logged_def)
  next
    case False
    show ?thesis
    proof (cases "snd (UnfollowCandidates (candidates_drv env) (store w))")
      case (Some x)
      then show ?thesis
        using False assms by (simp add: pass_def Let_def w1_def ActionsInLastHour_def logged_def)
    next
      case None
      show ?thesis
      proof (cases "fst (UnfollowCandidates (candidates_drv env) (store w)) = []")
        case True
        then show ?thesis
          using False None assms
          by (simp add: pass_def Let_def w1_def ActionsInLastHour_def logged_def)
      next
        case nonempty: False
        define w2 where "w2 = w1\<lparr>events := events w1 @ [Log Info ''Loaded unfollow candidates'']\<rparr>"
        obtain R M cs where
          "snd (pass cfg env w) =
             (snd (batch R M (UnfollowDelaySeconds cfg) (visits env) 0 cs (0, 0, 0) w2))
               \<lparr>events := events (snd (batch R M (UnfollowDelaySeconds cfg) (visits env) 0 cs (0, 0, 0) w2))
                   @ [Log Info ''Session batch complete'']\<rparr>"
          using False None nonempty assms
          by (simp add: pass_def Let_def w1_def w2_def ActionsInLastHour_def logged_def)
        moreover obtain evs where
          "events (snd (batch R M (UnfollowDelaySeconds cfg) (visits env) 0 cs (0, 0, 0) w2)) = events w2 @ evs"
          using events_batch by blast
        ultimately show ?thesis by (simp add: w2_def)
      qed
    qed
  qed
  then show ?thesis by (auto simp: w1_def)
qed

text \<open>After one unfollow within the limit of 1 the next iteration finds no capacity left.\<close>

lemma session_actions_success:
  assumes "flt 1 = None"
  shows "session_actions (store (apply_result flt u UnfollowSuccess w))
           = session_actions (store w)
             @ [\<lparr>action_type = ''unfollow'', username = u, action_at = clock w div Second\<rparr>]"
  using assms
  by (simp add: apply_result_def Let_def MarkUnfollowed_def RecordAction_def RemoveFromFollowing_def
      split: option.splits)

lemma clock_apply_result: "clock (apply_result flt u r w) = clock w"
  by (cases r) (simp_all add: apply_result_def Let_def)

lemma in_last_hour_later:
  assumes "in_last_hour t d k = []" and "t \<le> t'"
  shows "in_last_hour t' d k = []"
  using assms by (auto simp: in_last_hour_def filter_empty_conv)

lemma quota_one_scenario:
  assumes H: "Hourly cfg = 1"
    and A1: "actions_drv env1 = None"
    and E: "in_last_hour (clock w div Second) (store w) ''unfollow'' = []"
    and D: "candidates_drv env1 = None"
    and C: "candidate_rows (store w) = c1 # c2 # rest"
    and S: "fst (fst (Unfollow (shown (visits env1 0)) (Username c1))) = UnfollowSuccess"
    and F: "faults (visits env1 0) 1 = None"
    and T: "0 \<le> elapsed (shown (visits env1 0))"
    and A2: "actions_drv env2 = None"
  shows "remainingThisHour cfg env1 w = 1"
    and "fst (pass cfg env1 w) = Continue"
    and "dispatched (events (snd (pass cfg env1 w))) = dispatched (events w) @ [Username c1]"
    and "remainingThisHour cfg env2 (snd (pass cfg env1 w)) = 0"
proof -
  define p where "p = shown (visits env1 0)"
  define u where "u = Username c1"
  define w2 where "w2 = w\<lparr>events := events w
                 @ [Log Info ''Previously unfollowed users'']
                 @ logged (snd (ActionsInLastHour (actions_drv env1) (clock w div Second) (store w)
                      ''unfollow'')) Warn ''Could not check recent actions''
                 @ [Log Info ''Rate limit status'']
                 @ [Log Info ''Loaded unfollow candidates'']\<rparr>"
  define w3 where "w3 = apply_result (faults (visits env1 0)) u UnfollowSuccess (dispatch p u w2)"
  show R: "remainingThisHour cfg env1 w = 1"
    using A1 E H by (simp add: remaining_on_success int64_def)
  have cs: "UnfollowCandidates (candidates_drv env1) (store w) = (c1 # c2 # rest, None)"
    using D C by (simp add: UnfollowCandidates_def)
  have P: "pass cfg env1 w =
      (Continue, w3\<lparr>events := events w3 @ [Log Info ''Reached hourly limit'']
                     @ [Log Info ''Session batch complete'']\<rparr>)"
    unfolding w3_def w2_def p_def u_def
    using S by (simp add: pass_def R cs Let_def)
  show "fst (pass cfg env1 w) = Continue"
    by (simp add: P)
  show "dispatched (events (snd (pass cfg env1 w))) = dispatched (events w) @ [Username c1]"
    by (simp add: P w3_def w2_def u_def dispatched_append dispatched_simps dispatched_apply_result
        dispatched_dispatch dispatched_logged)
  have clk: "clock (snd (pass cfg env1 w)) = clock w + elapsed p"
    by (simp add: P w3_def clock_apply_result dispatch_def w2_def)
  have log: "session_actions (store (snd (pass cfg env1 w)))
      = session_actions (store w)
        @ [\<lparr>action_type = ''unfollow'', username = u, action_at = (clock w + elapsed p) div Second\<rparr>]"
    using F session_actions_success [of "faults (visits env1 0)" u "dispatch p u w2"]
    by (simp add: P w3_def dispatch_def w2_def)
  have later: "clock w div Second \<le> (clock w + elapsed p) div Second"
    using T by (intro zdiv_mono1) (simp_all add: p_def Second_def)
  have old: "filter (\<lambda>a. action_type a = ''unfollow'' \<and> action_at a > (clock w + elapsed p) div Second - 3600)
      (session_actions (store w)) = []"
    using in_last_hour_later [OF E later] by (simp add: in_last_hour_def)
  have "in_last_hour (clock (snd (pass cfg env1 w)) div Second) (store (snd (pass cfg env1 w))) ''unfollow''
      = [\<lparr>action_type = ''unfollow'', username = u, action_at = (clock w + elapsed p) div Second\<rparr>]"
    by (simp add: in_last_hour_def clk log old)
  then show "remainingThisHour cfg env2 (snd (pass cfg env1 w)) = 0"
    using A2 H by (simp add: remaining_on_success int64_def)
qed

text \<open>The definitions a concrete run unfolds.\<close>

lemmas run_defs = pass_def remainingThisHour_def ActionsInLastHour_def in_last_hour_def Let_def
  UnfollowCandidates_def candidate_rows_def logged_def int64_def
  Unfollow_def emit_def apply_result_def dispatch_def MarkUnfollowed_def RecordAction_def
  RemoveFromFollowing_def insert_or_replace_def Second_def Minute_def Hour_def sleep_def
  calculateWaitTime_def OldestActionInLastHour_def Until_def dispatched_def

subsection \<open>The outcome table\<close>




subsection \<open>A failed count of the recent actions\<close>

text \<open>
  Claim C5, as the code has it. When the query counting the recent actions fails, the
  controller logs a warning, takes the count as 0, so that the remaining capacity is the
  whole hourly limit (0 when the limit is negative), and goes on with the iteration. The
  iteration stops the controller with an error only when the candidate query fails, and
  with a positive limit a failing candidate query always does.
\<close>

theorem count_failure_not_fatal:
  assumes "actions_drv env = Some e"
  shows "remainingThisHour cfg env w = (if int64 (Hourly cfg) < 0 then 0 else int64 (Hourly cfg)) \<and>
         Log Warn ''Could not check recent actions'' \<in> set (events (snd (pass cfg env w))) \<and>
         (\<forall>x. fst (pass cfg env w) = Return (Some x) \<longrightarrow>
              snd (UnfollowCandidates (candidates_drv env) (store w)) = Some x) \<and>
         (\<forall>x. 0 < int64 (Hourly cfg) \<and> snd (UnfollowCandidates (candidates_drv env) (store w)) = Some x \<longrightarrow>
              fst (pass cfg env w) = Return (Some x))"
proof (intro conjI allI impI)
  show r: "remainingThisHour cfg env w = (if int64 (Hourly cfg) < 0 then 0 else int64 (Hourly cfg))"
    using assms by (rule remaining_on_failure)
  show "Log Warn ''Could not check recent actions'' \<in> set (events (snd (pass cfg env w)))"
    using assms by (rule pass_warns)
  show "snd (UnfollowCandidates (candidates_drv env) (store w)) = Some x"
    if "fst (pass cfg env w) = Return (Some x)" for x
    using pass_returns_error [OF that] by blast
  show "fst (pass cfg env w) = Return (Some x)"
    if "0 < int64 (Hourly cfg) \<and> snd (UnfollowCandidates (candidates_drv env) (store w)) = Some x" for x
  proof -
    have "0 < remainingThisHour cfg env w" using that r by simp
    then show ?thesis using that pass_candidates_error by blast
  qed
qed

theorem count_failure_not_fatal_witness:
  "actions_drv ex_failing_env = Some ''database is locked'' \<and>
   remainingThisHour ex_cfg ex_failing_env ex_busy_world = 1 \<and>
   Log Warn ''Could not check recent actions''
     \<in> set (events (snd (pass ex_cfg ex_failing_env ex_busy_world))) \<and>
   fst (pass ex_cfg (ex_failing_env\<lparr>candidates_drv := Some (QueryFailed ''disk I/O error'')\<rparr>)
          ex_busy_world)
     = Return (Some ''query candidates: disk I/O error'')"
proof -
  let ?env = "ex_failing_env\<lparr>candidates_drv := Some (QueryFailed ''disk I/O error'')\<rparr>"
  have h: "actions_drv ex_failing_env = Some ''database is locked''"
    by (simp add: ex_failing_env_def)
  have h': "actions_drv ?env = Some ''database is locked''"
    by (simp add: ex_failing_env_def)
  have q: "0 < int64 (Hourly ex_cfg) \<and>
      snd (UnfollowCandidates (candidates_drv ?env) (store ex_busy_world))
        = Some ''query candidates: disk I/O error''"
    by (simp add: int64_def ex_cfg_def UnfollowCandidates_def)
  have r: "(if int64 (Hourly ex_cfg) < 0 then 0 else int64 (Hourly ex_cfg)) = 1"
    by (simp add: int64_def ex_cfg_def)
  have "fst (pass ex_cfg ?env ex_busy_world) = Return (Some ''query candidates: disk I/O error'')"
    using count_failure_not_fatal [OF h', of ex_cfg ex_busy_world] q by blast
  then show ?thesis
    using h count_failure_not_fatal [OF h, of ex_cfg ex_busy_world] by (simp only: r)
qed

text \<open>The example with the failing count, evaluated.\<close>

lemma ex_pass3:
  "fst (pass ex_cfg ex_failing_env ex_busy_world) = Continue \<and>
   dispatched (events (snd (pass ex_cfg ex_failing_env ex_busy_world))) = [''c'']"
  by (simp add: run_defs ex_failing_env_def ex_cfg_def ex_env_def ex_world_def ex_busy_world_def ex_db_def ex_visit_def ex_page_def)

lemma ex_run:
  "fst (runUnfollow ex_startup ex_cfg (\<lambda>k. ex_failing_env) 3 ex_busy_world) = Some None \<and>
   dispatched (events (snd (runUnfollow ex_startup ex_cfg (\<lambda>k. ex_failing_env) 3 ex_busy_world)))
     = [''c'', ''a'']"
  by (simp add: runUnfollow_def numeral_3_eq_3 run_defs ex_failing_env_def ex_startup_def
      ex_cfg_def ex_env_def ex_world_def ex_busy_world_def ex_db_def ex_visit_def ex_page_def)

text \<open>
  The claim as the specification states it fails. In \<open>ex_busy_world\<close> the one action the
  hourly limit allows was recorded a minute ago. With the count failing, the iteration does
  not stop the controller: it calls \<open>Unfollow\<close> for \<open>c\<close>; and when the count fails in
  every iteration, \<open>runUnfollow\<close> unfollows \<open>c\<close> and \<open>a\<close> and returns \<open>nil\<close>.
\<close>

theorem count_failure_counterexample:
  "actions_drv ex_failing_env = Some ''database is locked'' \<and>
   fst (ActionsInLastHour None (clock ex_busy_world div Second) (store ex_busy_world) ''unfollow'')
     = Hourly ex_cfg \<and>
   fst (pass ex_cfg ex_failing_env ex_busy_world) = Continue \<and>
   dispatched (events (snd (pass ex_cfg ex_failing_env ex_busy_world))) = [''c''] \<and>
   fst (runUnfollow ex_startup ex_cfg (\<lambda>k. ex_failing_env) 3 ex_busy_world) = Some None \<and>
   dispatched (events (snd (runUnfollow ex_startup ex_cfg (\<lambda>k. ex_failing_env) 3 ex_busy_world)))
     = [''c'', ''a'']"
proof -
  have "actions_drv ex_failing_env = Some ''database is locked''"
    by (simp add: ex_failing_env_def)
  moreover have "fst (ActionsInLastHour None (clock ex_busy_world div Second) (store ex_busy_world)
      ''unfollow'') = Hourly ex_cfg"
    by (simp add: ActionsInLastHour_def in_last_hour_def ex_busy_world_def ex_cfg_def Second_def)
  ultimately show ?thesis
    using ex_pass3 ex_run by simp
qed

subsection \<open>The quota gate\<close>

text \<open>
  Claim C6, as the code has it. In an iteration in which the count of the recent actions
  succeeds, the remaining capacity the loop computes is the hourly limit less the number
  of unfollow actions in the last hour, never below 0, and the controller dispatches no
  candidate while it is zero: \<open>Unfollow\<close> is not called, the iteration ends with a sleep
  of \<open>calculateWaitTime\<close> and the loop goes round to check again. The usernames
  \<open>Unfollow\<close> is called for in the iteration are the first \<open>n\<close> candidates, in the
  order of the query, for an \<open>n\<close> of at most the remaining capacity and at most the number
  of candidates. With a limit of 1, no action in the last hour and at least two
  candidates, once the first is unfollowed and the action is recorded, the next iteration
  (its count succeeding too) finds a remaining capacity of 0 and sleeps: the second
  candidate is not attempted.
\<close>

theorem quota_gates_dispatch:
  assumes "actions_drv env = None"
  shows
  "remainingThisHour cfg env w =
     max 0 (int64 (Hourly cfg
       - fst (ActionsInLastHour None (clock w div Second) (store w) ''unfollow''))) \<and>
   (max 0 (int64 (Hourly cfg
       - fst (ActionsInLastHour None (clock w div Second) (store w) ''unfollow''))) = 0 \<longrightarrow>
      fst (pass cfg env w) = Continue \<and>
      dispatched (events (snd (pass cfg env w))) = dispatched (events w) \<and>
      store (snd (pass cfg env w)) = store w \<and>
      last (events (snd (pass cfg env w)))
        = Sleep (calculateWaitTime (oldest_drv env) (clock w div Second) (clock w) (store w))) \<and>
   (\<exists>n. int n \<le> min (max 0 (int64 (Hourly cfg
                      - fst (ActionsInLastHour None (clock w div Second) (store w) ''unfollow''))))
                    (int (length (fst (UnfollowCandidates (candidates_drv env) (store w))))) \<and>
        dispatched (events (snd (pass cfg env w)))
          = dispatched (events w)
            @ map Username (take n (fst (UnfollowCandidates (candidates_drv env) (store w))))) \<and>
   (Hourly cfg = 1 \<and>
    in_last_hour (clock w div Second) (store w) ''unfollow'' = [] \<and>
    candidates_drv env = None \<and> candidate_rows (store w) = c1 # c2 # rest \<and>
    fst (fst (Unfollow (shown (visits env 0)) (Username c1))) = UnfollowSuccess \<and>
    faults (visits env 0) 1 = None \<and> 0 \<le> elapsed (shown (visits env 0)) \<and>
    actions_drv env' = None \<longrightarrow>
      fst (pass cfg env w) = Continue \<and>
      dispatched (events (snd (pass cfg env w))) = dispatched (events w) @ [Username c1] \<and>
      max 0 (int64 (Hourly cfg
        - fst (ActionsInLastHour None (clock (snd (pass cfg env w)) div Second)
            (store (snd (pass cfg env w))) ''unfollow''))) = 0 \<and>
      fst (pass cfg env' (snd (pass cfg env w))) = Continue \<and>
      dispatched (events (snd (pass cfg env' (snd (pass cfg env w)))))
        = dispatched (events w) @ [Username c1] \<and>
      last (events (snd (pass cfg env' (snd (pass cfg env w)))))
        = Sleep (calculateWaitTime (oldest_drv env') (clock (snd (pass cfg env w)) div Second)
            (clock (snd (pass cfg env w))) (store (snd (pass cfg env w)))))"
proof -
  have cap: "remainingThisHour cfg e v =
     max 0 (int64 (Hourly cfg
       - fst (ActionsInLastHour None (clock v div Second) (store v) ''unfollow'')))"
    if "actions_drv e = None" for e v
    using that by (simp add: remaining_on_success ActionsInLastHour_def Let_def max_def)
  note r = cap [OF assms, of w]
  have 1: "max 0 (int64 (Hourly cfg
       - fst (ActionsInLastHour None (clock w div Second) (store w) ''unfollow''))) = 0 \<longrightarrow>
      fst (pass cfg env w) = Continue \<and>
      dispatched (events (snd (pass cfg env w))) = dispatched (events w) \<and>
      store (snd (pass cfg env w)) = store w \<and>
      last (events (snd (pass cfg env w)))
        = Sleep (calculateWaitTime (oldest_drv env) (clock w div Second) (clock w) (store w))"
  proof
    assume "max 0 (int64 (Hourly cfg
       - fst (ActionsInLastHour None (clock w div Second) (store w) ''unfollow''))) = 0"
    then have z: "remainingThisHour cfg env w = 0"
      by (simp only: r)
    show "fst (pass cfg env w) = Continue \<and>
      dispatched (events (snd (pass cfg env w))) = dispatched (events w) \<and>
      store (snd (pass cfg env w)) = store w \<and>
      last (events (snd (pass cfg env w)))
        = Sleep (calculateWaitTime (oldest_drv env) (clock w div Second) (clock w) (store w))"
      by (intro conjI) (rule pass_cooldown [OF z])+
  qed
  have 2: "\<exists>n. int n \<le> min (max 0 (int64 (Hourly cfg
                      - fst (ActionsInLastHour None (clock w div Second) (store w) ''unfollow''))))
                    (int (length (fst (UnfollowCandidates (candidates_drv env) (store w))))) \<and>
        dispatched (events (snd (pass cfg env w)))
          = dispatched (events w)
            @ map Username (take n (fst (UnfollowCandidates (candidates_drv env) (store w))))"
  proof -
    obtain n where "int n \<le> remainingThisHour cfg env w"
      "n \<le> length (fst (UnfollowCandidates (candidates_drv env) (store w)))"
      "dispatched (events (snd (pass cfg env w)))
         = dispatched (events w)
           @ map Username (take n (fst (UnfollowCandidates (candidates_drv env) (store w))))"
      using pass_dispatched [of cfg env w] by (elim exE conjE)
    then show ?thesis
      by (intro exI [of _ n]) (simp add: r [symmetric])
  qed
  have 3: "fst (pass cfg env w) = Continue \<and>
      dispatched (events (snd (pass cfg env w))) = dispatched (events w) @ [Username c1] \<and>
      max 0 (int64 (Hourly cfg
        - fst (ActionsInLastHour None (clock (snd (pass cfg env w)) div Second)
            (store (snd (pass cfg env w))) ''unfollow''))) = 0 \<and>
      fst (pass cfg env' (snd (pass cfg env w))) = Continue \<and>
      dispatched (events (snd (pass cfg env' (snd (pass cfg env w)))))
        = dispatched (events w) @ [Username c1] \<and>
      last (events (snd (pass cfg env' (snd (pass cfg env w)))))
        = Sleep (calculateWaitTime (oldest_drv env') (clock (snd (pass cfg env w)) div Second)
            (clock (snd (pass cfg env w))) (store (snd (pass cfg env w))))"
    if a: "Hourly cfg = 1 \<and>
      in_last_hour (clock w div Second) (store w) ''unfollow'' = [] \<and>
      candidates_drv env = None \<and> candidate_rows (store w) = c1 # c2 # rest \<and>
      fst (fst (Unfollow (shown (visits env 0)) (Username c1))) = UnfollowSuccess \<and>
      faults (visits env 0) 1 = None \<and> 0 \<le> elapsed (shown (visits env 0)) \<and>
      actions_drv env' = None"
  proof -
    have s: "fst (pass cfg env w) = Continue"
      "dispatched (events (snd (pass cfg env w))) = dispatched (events w) @ [Username c1]"
      "remainingThisHour cfg env' (snd (pass cfg env w)) = 0"
      using a assms quota_one_scenario [of cfg env w c1 c2 rest env'] by blast+
    have e': "actions_drv env' = None"
      using a by blast
    have z: "max 0 (int64 (Hourly cfg
        - fst (ActionsInLastHour None (clock (snd (pass cfg env w)) div Second)
            (store (snd (pass cfg env w))) ''unfollow''))) = 0"
      using s(3) by (simp only: cap [OF e'])
    have d: "dispatched (events (snd (pass cfg env' (snd (pass cfg env w)))))
        = dispatched (events w) @ [Username c1]"
      using pass_cooldown(3) [OF s(3)] s(2) by simp
    show ?thesis
      by (intro conjI) (fact s(1) s(2) z d pass_cooldown(1) [OF s(3)] pass_cooldown(4) [OF s(3)])+
  qed
  show ?thesis
    using r 1 2 3 by (intro conjI impI) blast+
qed

text \<open>The first iteration on the example world, evaluated.\<close>

lemma ex_pass1:
  "pass ex_cfg ex_env ex_world =
     (Continue,
      \<lparr>store = ex_db\<lparr>
         following :=
           [\<lparr>Username = ''a'', Href = ''ha'', Timestamp = 10\<rparr>,
            \<lparr>Username = ''b'', Href = ''hb'', Timestamp = 30\<rparr>,
            \<lparr>Username = ''d'', Href = ''hd'', Timestamp = 40\<rparr>,
            \<lparr>Username = ''e'', Href = ''he'', Timestamp = 50\<rparr>],
         unfollowed := [(''d'', 7), (''c'', 1700000020)],
         session_actions :=
           [\<lparr>action_type = ''unfollow'', username = ''c'', action_at = 1700000020\<rparr>]\<rparr>,
       clock = 1700000020 * Second,
       events = events (snd (pass ex_cfg ex_env ex_world))\<rparr>)"
  by (simp add: run_defs ex_cfg_def ex_env_def ex_world_def ex_busy_world_def ex_db_def ex_visit_def ex_page_def)

text \<open>
  On the examples: with the quota used up the iteration sleeps for an hour; with quota 1
  and the candidates \<open>c\<close> and \<open>a\<close>, the first iteration unfollows \<open>c\<close> and the second
  one sleeps for 61 minutes without calling \<open>Unfollow\<close> for \<open>a\<close>.
\<close>

theorem quota_gates_dispatch_witness:
  "actions_drv ex_env = None \<and>
   remainingThisHour ex_cfg ex_env ex_busy_world = 0 \<and>
   dispatched (events (snd (pass ex_cfg ex_env ex_busy_world))) = [] \<and>
   last (events (snd (pass ex_cfg ex_env ex_busy_world))) = Sleep (60 * Minute) \<and>
   Hourly ex_cfg = 1 \<and>
   map Username (candidate_rows (store ex_world)) = [''c'', ''a''] \<and>
   fst (fst (Unfollow (shown (visits ex_env 0)) ''c'')) = UnfollowSuccess \<and>
   dispatched (events (snd (pass ex_cfg ex_env ex_world))) = [''c''] \<and>
   dispatched (events (snd (pass ex_cfg ex_env (snd (pass ex_cfg ex_env ex_world))))) = [''c''] \<and>
   last (events (snd (pass ex_cfg ex_env (snd (pass ex_cfg ex_env ex_world)))))
     = Sleep (61 * Minute)"
proof -
  let ?c = "\<lparr>Username = ''c'', Href = ''hc'', Timestamp = 20\<rparr>"
  let ?a = "\<lparr>Username = ''a'', Href = ''ha'', Timestamp = 10\<rparr>"
  have ha: "actions_drv ex_env = None"
    by (simp add: ex_env_def)
  have z: "remainingThisHour ex_cfg ex_env ex_busy_world = 0"
    by (simp add: remainingThisHour_def ActionsInLastHour_def in_last_hour_def Let_def int64_def
        ex_cfg_def ex_env_def ex_world_def ex_busy_world_def ex_db_def ex_visit_def ex_page_def Second_def)
  have w0: "calculateWaitTime (oldest_drv ex_env) (clock ex_busy_world div Second)
      (clock ex_busy_world) (store ex_busy_world) = 60 * Minute"
    by (simp add: calculateWaitTime_def OldestActionInLastHour_def in_last_hour_def Until_def
        Let_def ex_cfg_def ex_env_def ex_world_def ex_busy_world_def ex_db_def ex_visit_def ex_page_def Second_def Minute_def Hour_def)
  have d0: "dispatched (events ex_busy_world) = []" "dispatched (events ex_world) = []"
    by (simp_all add: ex_cfg_def ex_env_def ex_world_def ex_busy_world_def ex_db_def ex_visit_def ex_page_def dispatched_def)
  have c: "candidate_rows (store ex_world) = ?c # ?a # []"
    by (simp add: candidate_rows_def ex_cfg_def ex_env_def ex_world_def ex_busy_world_def ex_db_def ex_visit_def ex_page_def)
  have s: "fst (fst (Unfollow (shown (visits ex_env 0)) (Username ?c))) = UnfollowSuccess"
    by (simp add: Unfollow_def emit_def ex_cfg_def ex_env_def ex_world_def ex_busy_world_def ex_db_def ex_visit_def ex_page_def)
  have hyp: "Hourly ex_cfg = 1 \<and>
    in_last_hour (clock ex_world div Second) (store ex_world) ''unfollow'' = [] \<and>
    candidates_drv ex_env = None \<and> candidate_rows (store ex_world) = ?c # ?a # [] \<and>
    fst (fst (Unfollow (shown (visits ex_env 0)) (Username ?c))) = UnfollowSuccess \<and>
    faults (visits ex_env 0) 1 = None \<and> 0 \<le> elapsed (shown (visits ex_env 0)) \<and>
    actions_drv ex_env = None"
    using c s by (simp add: in_last_hour_def ex_cfg_def ex_env_def ex_world_def ex_busy_world_def ex_db_def ex_visit_def ex_page_def Second_def)
  have w1: "calculateWaitTime (oldest_drv ex_env) (clock (snd (pass ex_cfg ex_env ex_world)) div Second)
      (clock (snd (pass ex_cfg ex_env ex_world))) (store (snd (pass ex_cfg ex_env ex_world)))
      = 61 * Minute"
    by (subst (1 2 3) ex_pass1)
      (simp add: calculateWaitTime_def OldestActionInLastHour_def in_last_hour_def Until_def
        Let_def ex_env_def Second_def Minute_def Hour_def)
  have g0: "dispatched (events (snd (pass ex_cfg ex_env ex_busy_world))) = dispatched (events ex_busy_world) \<and>
      last (events (snd (pass ex_cfg ex_env ex_busy_world)))
        = Sleep (calculateWaitTime (oldest_drv ex_env) (clock ex_busy_world div Second)
            (clock ex_busy_world) (store ex_busy_world))"
  proof -
    note q = quota_gates_dispatch [OF ha, of ex_cfg ex_busy_world]
    have "remainingThisHour ex_cfg ex_env ex_busy_world =
       max 0 (int64 (Hourly ex_cfg
         - fst (ActionsInLastHour None (clock ex_busy_world div Second) (store ex_busy_world)
             ''unfollow'')))"
      using q by (rule conjunct1)
    then have "max 0 (int64 (Hourly ex_cfg
         - fst (ActionsInLastHour None (clock ex_busy_world div Second) (store ex_busy_world)
             ''unfollow''))) = 0"
      using z by simp
    then show ?thesis
      using q by blast
  qed
  have g1: "dispatched (events (snd (pass ex_cfg ex_env ex_world))) = dispatched (events ex_world) @ [Username ?c] \<and>
      dispatched (events (snd (pass ex_cfg ex_env (snd (pass ex_cfg ex_env ex_world)))))
        = dispatched (events ex_world) @ [Username ?c] \<and>
      last (events (snd (pass ex_cfg ex_env (snd (pass ex_cfg ex_env ex_world)))))
        = Sleep (calculateWaitTime (oldest_drv ex_env) (clock (snd (pass ex_cfg ex_env ex_world)) div Second)
            (clock (snd (pass ex_cfg ex_env ex_world))) (store (snd (pass ex_cfg ex_env ex_world))))"
    using quota_gates_dispatch [OF ha, of ex_cfg ex_world ?c ?a "[]" ex_env] hyp by blast
  have h1: "Hourly ex_cfg = 1"
    by (simp add: ex_cfg_def)
  show ?thesis
    using ha z g0 g1 s h1 by (simp add: w0 w1 d0 c)
qed

text \<open>The two iterations on the example world when recording the action fails, evaluated.\<close>

lemma ex_norecord_run:
  "dispatched (events (snd (pass ex_cfg ex_norecord_env (snd (pass ex_cfg ex_norecord_env ex_world)))))
     = [''c'', ''a''] \<and>
   sleeps (events (snd (pass ex_cfg ex_norecord_env (snd (pass ex_cfg ex_norecord_env ex_world)))))
     = []"
  by (simp add: run_defs sleeps_def ex_norecord_env_def ex_cfg_def ex_env_def ex_world_def ex_db_def
      ex_visit_def ex_page_def)

lemma ex_failopen_run:
  "dispatched (events (snd (pass ex_cfg ex_failing_env ex_busy_world))) = [''c''] \<and>
   sleeps (events (snd (pass ex_cfg ex_failing_env ex_busy_world))) = []"
  by (simp add: run_defs sleeps_def ex_failing_env_def ex_cfg_def ex_env_def ex_busy_world_def
      ex_db_def ex_visit_def ex_page_def)

text \<open>
  The claim as the specification states it fails, in two ways. In \<open>ex_busy_world\<close> the
  hourly limit of 1 was used a minute ago, so the remaining quota is zero; when the count
  of the recent actions fails, the iteration calls \<open>Unfollow\<close> for \<open>c\<close> all the same,
  without a sleep. In \<open>ex_world\<close>, with the limit 1 and the candidates \<open>c\<close> and \<open>a\<close>,
  when recording the action fails the two iterations call \<open>Unfollow\<close> for \<open>c\<close> and then
  for \<open>a\<close>, both with success and with no sleep in between.
\<close>

theorem quota_gates_dispatch_counterexample:
  "max 0 (int64 (Hourly ex_cfg
     - fst (ActionsInLastHour None (clock ex_busy_world div Second) (store ex_busy_world)
         ''unfollow''))) = 0 \<and>
   dispatched (events (snd (pass ex_cfg ex_failing_env ex_busy_world))) = [''c''] \<and>
   sleeps (events (snd (pass ex_cfg ex_failing_env ex_busy_world))) = [] \<and>
   Hourly ex_cfg = 1 \<and>
   map Username (candidate_rows (store ex_world)) = [''c'', ''a''] \<and>
   fst (Unfollow (shown (visits ex_norecord_env 0)) ''c'') = (UnfollowSuccess, None) \<and>
   dispatched (events (snd (pass ex_cfg ex_norecord_env (snd (pass ex_cfg ex_norecord_env ex_world)))))
     = [''c'', ''a''] \<and>
   sleeps (events (snd (pass ex_cfg ex_norecord_env (snd (pass ex_cfg ex_norecord_env ex_world)))))
     = []"
proof -
  have "max 0 (int64 (Hourly ex_cfg
     - fst (ActionsInLastHour None (clock ex_busy_world div Second) (store ex_busy_world)
         ''unfollow''))) = 0"
    by (simp add: ActionsInLastHour_def in_last_hour_def int64_def ex_cfg_def ex_busy_world_def
        ex_db_def Second_def)
  moreover have "Hourly ex_cfg = 1"
    by (simp add: ex_cfg_def)
  moreover have "map Username (candidate_rows (store ex_world)) = [''c'', ''a'']"
    by (simp add: candidate_rows_def ex_world_def ex_db_def)
  moreover have "fst (Unfollow (shown (visits ex_norecord_env 0)) ''c'') = (UnfollowSuccess, None)"
    by (simp add: Unfollow_def emit_def ex_norecord_env_def ex_env_def ex_visit_def ex_page_def)
  ultimately show ?thesis
    using ex_norecord_run ex_failopen_run by simp
qed

end
